theory Spec2Isabelle
  imports Complex_Main "HOL-Library.Option_ord" "HOL-Library.AList"
begin

section \<open>Data frames\<close>

text \<open>
  The program keeps its tables in pandas data frames. A frame is modelled by its column
  names and its rows, each row holding one cell per column, in column order. A cell is a
  missing value (NaN, and NaT in a column of instants), an instant, a number or a text.
  Instants are integers: microseconds since the epoch, in UTC, which is what the
  program's conversion \<open>pd.to_datetime(..., utc=True)\<close> produces. Row labels (the pandas
  index) are not modelled: the frames the program reads carry the default labels
  \<open>0, 1, 2, ...\<close>, so that a label is a position.
\<close>

datatype cell = NaN | Time int | Num real | Str string

record frame =
  columns :: "string list"
  rows :: "cell list list"

datatype exn = KeyError string | ValueError | TypeError | ParserError | OSError

text \<open>\<open>pd.DataFrame()\<close>\<close>

definition DataFrame :: frame where
  "DataFrame = \<lparr>columns = [], rows = []\<rparr>"

text \<open>\<open>df.empty\<close>: an axis of length 0.\<close>

definition df_empty :: "frame \<Rightarrow> bool" where
  "df_empty df = (columns df = [] \<or> rows df = [])"

text \<open>The cell of a row under a column name; NaN when the row has no such column.\<close>

definition cell_at :: "string list \<Rightarrow> cell list \<Rightarrow> string \<Rightarrow> cell" where
  "cell_at cols r c = (case map_of (zip cols r) c of Some v \<Rightarrow> v | None \<Rightarrow> NaN)"

text \<open>\<open>df[c]\<close> for a column the frame has.\<close>

definition column :: "string \<Rightarrow> frame \<Rightarrow> cell list" where
  "column c df = map (\<lambda>r. cell_at (columns df) r c) (rows df)"

text \<open>
  \<open>df[c] = values\<close>: an existing column is overwritten in place, a new one is appended
  as the last column.
\<close>

definition set_cell :: "string list \<Rightarrow> string \<Rightarrow> cell \<Rightarrow> cell list \<Rightarrow> cell list" where
  "set_cell cols c v r =
     (if c \<in> set cols
      then map (\<lambda>(n, x). if n = c then v else x) (zip cols r)
      else r @ [v])"

definition set_column :: "string \<Rightarrow> cell list \<Rightarrow> frame \<Rightarrow> frame" where
  "set_column c vs df =
     \<lparr>columns = (if c \<in> set (columns df) then columns df else columns df @ [c]),
      rows = map (\<lambda>(r, v). set_cell (columns df) c v r) (zip (rows df) vs)\<rparr>"

text \<open>
  The key column of the program:
  \<open>'timestamp' if 'timestamp' in df.columns else 'datetime'\<close>.
\<close>

definition timestamp_col :: "frame \<Rightarrow> string" where
  "timestamp_col df = (if ''timestamp'' \<in> set (columns df) then ''timestamp'' else ''datetime'')"

text \<open>
  Sorting by a column of instants, \<open>df.sort_values(c, ascending=False)\<close>: later
  instants first, missing instants last. pandas reverses the rows, sorts them in
  ascending order and reverses the result. The order it gives to rows of equal key
  depends on its sorting algorithm; the model keeps their order. Every sort of the
  program comes after duplicate keys have been removed, where this makes no difference.
\<close>

definition time_rank :: "cell \<Rightarrow> int option" where
  "time_rank x = (case x of Time t \<Rightarrow> Some t | _ \<Rightarrow> None)"

definition sort_desc :: "('a \<Rightarrow> cell) \<Rightarrow> 'a list \<Rightarrow> 'a list" where
  "sort_desc key xs = rev (sort_key (\<lambda>r. time_rank (key r)) (rev xs))"

definition sort_values_desc :: "string \<Rightarrow> frame \<Rightarrow> frame" where
  "sort_values_desc c df = df\<lparr>rows := sort_desc (\<lambda>r. cell_at (columns df) r c) (rows df)\<rparr>"

text \<open>
  A column of instants: every cell is an instant or is missing. This is what
  \<open>pd.to_datetime\<close> leaves in the key column of a frame.
\<close>

definition is_instant :: "cell \<Rightarrow> bool" where
  "is_instant x = (case x of NaN \<Rightarrow> True | Time t \<Rightarrow> True | _ \<Rightarrow> False)"

definition instants :: "string \<Rightarrow> frame \<Rightarrow> bool" where
  "instants c df = list_all (\<lambda>r. is_instant (cell_at (columns df) r c)) (rows df)"


section \<open>Metrics engine: backend/metrics.py\<close>

text \<open>
  Python floats are idealised as real numbers. The only float behaviour that is kept is
  the one numpy shows on a division by zero: no exception, a value that is infinite or
  not a number. Such a value is \<open>None\<close> in \<open>real option\<close>; it is absorbing for the
  arithmetic that follows (a sum or a mean over an array that holds one is again not
  finite), which is how \<open>mean_opt\<close> treats it.
\<close>

datatype mval = IntV int | FloatV real | NonFinite

definition fl :: "real option \<Rightarrow> mval" where
  "fl x = (case x of None \<Rightarrow> NonFinite | Some v \<Rightarrow> FloatV v)"

definition np_div :: "real \<Rightarrow> real \<Rightarrow> real option" where
  "np_div a b = (if b = 0 then None else Some (a / b))"

text \<open>\<open>arr.mean()\<close>: the sum over the number of elements.\<close>

definition np_mean :: "real list \<Rightarrow> real option" where
  "np_mean xs = np_div (sum_list xs) (real (length xs))"

definition mean_opt :: "real option list \<Rightarrow> real option" where
  "mean_opt xs = (case those xs of None \<Rightarrow> None | Some ys \<Rightarrow> np_mean ys)"

text \<open>\<open>(x / acts.mean()) * 100 if acts.mean() != 0 else 0\<close>\<close>

definition guarded_pct :: "real option \<Rightarrow> real option \<Rightarrow> real option" where
  "guarded_pct x m =
     (case m of
        None \<Rightarrow> None
      | Some mv \<Rightarrow>
          if mv \<noteq> 0
          then (case x of None \<Rightarrow> None
                | Some xv \<Rightarrow> map_option (\<lambda>q. q * 100) (np_div xv mv))
          else Some 0)"

text \<open>Lines 194-213: the point metrics of two arrays of the same, positive length.\<close>

definition point_metrics :: "real list \<Rightarrow> real list \<Rightarrow> (string \<times> mval) list" where
  "point_metrics preds acts =
     (let errors = map (\<lambda>(a, p). a - p) (zip acts preds);
          mape = mean_opt (map (\<lambda>(e, a). map_option (\<lambda>q. q * 100) (np_div \<bar>e\<bar> a))
                            (zip errors acts));
          mae = np_mean (map abs errors);
          rmse = map_option sqrt (np_mean (map (\<lambda>e. e ^ 2) errors));
          bias = np_mean errors;
          bias_pct = guarded_pct bias (np_mean acts)
      in [(''n_predictions'', IntV (int (length preds))),
          (''mape'', fl mape),
          (''mae'', fl mae),
          (''rmse'', fl rmse),
          (''bias'', fl bias),
          (''bias_pct'', fl bias_pct)])"

text \<open>
  Lines 215-234: \<open>if intervals_lower and intervals_upper\<close> holds for a list that is
  neither \<open>None\<close> nor empty.
\<close>

definition truthy :: "real list option \<Rightarrow> bool" where
  "truthy xs = (case xs of None \<Rightarrow> False | Some l \<Rightarrow> l \<noteq> [])"

definition interval_metrics ::
  "real list \<Rightarrow> real list option \<Rightarrow> real list option \<Rightarrow> (string \<times> mval) list" where
  "interval_metrics acts intervals_lower intervals_upper =
     (case (intervals_lower, intervals_upper) of
        (Some lower, Some upper) \<Rightarrow>
          if truthy intervals_lower \<and> truthy intervals_upper
          then
            if length lower = length acts \<and> length upper = length acts
            then
              (let in_interval = map (\<lambda>(a, l, u). l \<le> a \<and> a \<le> u) (zip acts (zip lower upper));
                   coverage = map_option (\<lambda>q. q * 100)
                     (np_div (real (length (filter id in_interval))) (real (length acts)));
                   interval_widths = map (\<lambda>(u, l). u - l) (zip upper lower);
                   avg_interval_width = np_mean interval_widths;
                   avg_interval_width_pct = guarded_pct avg_interval_width (np_mean acts)
               in [(''coverage'', fl coverage),
                   (''avg_interval_width'', fl avg_interval_width),
                   (''avg_interval_width_pct'', fl avg_interval_width_pct)])
            else []
          else []
      | _ \<Rightarrow> [])"

text \<open>
  \<open>MetricsCalculator.calculate_prediction_metrics\<close>. The result dictionary is an
  association list in insertion order; \<open>{}\<close> is the empty list.
\<close>

definition calculate_prediction_metrics ::
  "real list \<Rightarrow> real list \<Rightarrow> real list option \<Rightarrow> real list option \<Rightarrow> (string \<times> mval) list" where
  "calculate_prediction_metrics predictions actuals intervals_lower intervals_upper =
     (if predictions = [] \<or> actuals = [] then []
      else
        let min_len = min (length predictions) (length actuals);
            mismatch = (length predictions \<noteq> length actuals);
            preds = (if mismatch then take min_len predictions else predictions);
            acts = (if mismatch then take min_len actuals else actuals)
        in if length preds = 0 then []
           else point_metrics preds acts @ interval_metrics acts intervals_lower intervals_upper)"


section \<open>Price cache: backend/price_csv_loader.py\<close>

text \<open>
  The class attributes of \<open>PriceCSVLoader\<close> are the state; every class method takes the
  state and returns the new one. A dictionary whose iteration order matters (the lookup
  index, the result of a batch) is an association list in insertion order, written with
  \<open>AList.update\<close>: a key that is already present keeps its place.
\<close>

record price_loader =
  price_cache :: "string \<rightharpoonup> frame"
  price_lookup_cache :: "string \<rightharpoonup> (cell \<times> cell) list"
  file_mtime_cache :: "string \<rightharpoonup> real"

text \<open>
  The directory of price files, by file name. A file has a modification time and a
  content; the content is what \<open>pd.read_csv\<close> followed by the conversion of the
  \<open>timestamp\<close> column to instants gives for it, or the exception that one of the two
  raises.
\<close>

record price_file =
  st_mtime :: real
  content :: "exn + frame"

type_synonym file_system = "string \<rightharpoonup> price_file"

definition ASSET_CSV_MAP :: "(string \<times> string) list" where
  "ASSET_CSV_MAP = [(''btc'', ''btc_7d.csv''), (''eth'', ''eth_7d.csv''), (''tao'', ''tao_7d.csv'')]"

definition ASSET_CSV_FALLBACK :: "(string \<times> string) list" where
  "ASSET_CSV_FALLBACK = [(''btc'', ''btc.csv''), (''eth'', ''eth.csv''), (''tao'', ''tao.csv'')]"

text \<open>\<open>str.lower()\<close> on ASCII letters.\<close>

definition lower_char :: "char \<Rightarrow> char" where
  "lower_char c =
     (case map_of (zip ''ABCDEFGHIJKLMNOPQRSTUVWXYZ'' ''abcdefghijklmnopqrstuvwxyz'') c of
        Some l \<Rightarrow> l
      | None \<Rightarrow> c)"

definition lower :: "string \<Rightarrow> string" where
  "lower s = map lower_char s"

text \<open>
  \<open>dt.replace(minute=(dt.minute // 5) * 5, second=0, microsecond=0)\<close>: the start of the
  five-minute bucket of an instant. Hours start at multiples of 3600 seconds, so this is
  the instant rounded down to a multiple of 300 seconds.
\<close>

definition bucket :: "int \<Rightarrow> int" where
  "bucket t = t - t mod 300000000"

text \<open>
  The same expression applied to a cell of the \<open>timestamp\<close> column. NaT has the
  method and returns NaT; a cell that is not an instant has no such method.
\<close>

definition round_cell :: "cell \<Rightarrow> exn + cell" where
  "round_cell x = (case x of Time t \<Rightarrow> Inr (Time (bucket t)) | NaN \<Rightarrow> Inr NaN | _ \<Rightarrow> Inl TypeError)"

text \<open>
  The rows of \<open>df.iterrows()\<close>. pandas builds each row from the cells of all columns
  and infers its type. When every cell of the row is an instant or is missing (as in a
  file with no column but \<open>timestamp\<close> and \<open>close\<close>, in a row whose close is
  missing), the row is a row of instants and its missing cells are NaT. When some cell is a number or a
  text, the row keeps its cells as they are.
\<close>

definition datetime_row :: "string list \<Rightarrow> cell list \<Rightarrow> bool" where
  "datetime_row cols r = list_all (\<lambda>c. is_instant (cell_at cols r c)) cols"

text \<open>
  \<open>float(row['close'])\<close>, given whether the row is a row of instants:
  \<open>float(NaT)\<close> raises \<open>TypeError\<close>, \<open>float(nan)\<close> is nan. A text is a field that
  the reader did not read as a number; \<open>float\<close> raises \<open>ValueError\<close> on it.
\<close>

definition to_float :: "bool \<Rightarrow> cell \<Rightarrow> exn + cell" where
  "to_float in_datetime_row x =
     (case x of
        Num v \<Rightarrow> Inr (Num v)
      | NaN \<Rightarrow> if in_datetime_row then Inl TypeError else Inr NaN
      | Str s \<Rightarrow> Inl ValueError
      | Time t \<Rightarrow> Inl TypeError)"

fun sequence :: "(exn + 'a) list \<Rightarrow> exn + 'a list" where
  "sequence [] = Inr []"
| "sequence (x # xs) =
     (case x of Inl e \<Rightarrow> Inl e
      | Inr v \<Rightarrow> (case sequence xs of Inl e \<Rightarrow> Inl e | Inr vs \<Rightarrow> Inr (v # vs)))"

text \<open>
  Lines 102-103: \<open>for _, row in df.iterrows(): lookup[row['timestamp_rounded']] =
  float(row['close'])\<close>. A later row of the same bucket overwrites the value.
\<close>

fun build_lookup :: "string list \<Rightarrow> cell list list \<Rightarrow> (cell \<times> cell) list \<Rightarrow> exn + (cell \<times> cell) list" where
  "build_lookup cols [] lookup = Inr lookup"
| "build_lookup cols (r # rs) lookup =
     (case to_float (datetime_row cols r) (cell_at cols r ''close'') of
        Inl e \<Rightarrow> Inl e
      | Inr v \<Rightarrow> build_lookup cols rs (AList.update (cell_at cols r ''timestamp_rounded'') v lookup))"

text \<open>
  Lines 76-111, the body of the \<open>try\<close> of \<open>_load_price_csv\<close>; every exception ends in
  \<open>return None\<close>. The frame is cached before the index is built, so a failure while the
  index is built leaves the frame in the cache.
\<close>

definition read_and_index ::
  "price_file \<Rightarrow> string \<Rightarrow> price_loader \<Rightarrow> frame option \<times> price_loader" where
  "read_and_index f a st =
     (case content f of
        Inl e \<Rightarrow> (None, st)
      | Inr df \<Rightarrow>
          if ''close'' \<notin> set (columns df) then (None, st)
          else
            let st1 = st\<lparr>price_cache := (price_cache st)(a \<mapsto> df),
                         file_mtime_cache := (file_mtime_cache st)(a \<mapsto> st_mtime f)\<rparr>
            in if ''timestamp'' \<notin> set (columns df) then (None, st1)
               else
                 (case sequence (map round_cell (column ''timestamp'' df)) of
                    Inl e \<Rightarrow> (None, st1)
                  | Inr rounded \<Rightarrow>
                      let df' = set_column ''timestamp_rounded'' rounded df;
                          st2 = st1\<lparr>price_cache := (price_cache st1)(a \<mapsto> df')\<rparr>
                      in (case build_lookup (columns df') (rows df') [] of
                            Inl e \<Rightarrow> (None, st2)
                          | Inr lookup \<Rightarrow>
                              (Some df',
                               st2\<lparr>price_lookup_cache := (price_lookup_cache st2)(a \<mapsto> lookup)\<rparr>))))"

text \<open>\<open>PriceCSVLoader._load_price_csv\<close>\<close>

definition load_price_csv ::
  "file_system \<Rightarrow> price_loader \<Rightarrow> string \<Rightarrow> bool \<Rightarrow> frame option \<times> price_loader" where
  "load_price_csv fs st asset force_reload =
     (let a = lower asset in
      case map_of ASSET_CSV_MAP a of
        None \<Rightarrow> (None, st)
      | Some primary \<Rightarrow>
          let csv_file =
                (if fs primary \<noteq> None then primary
                 else (case map_of ASSET_CSV_FALLBACK a of Some fallback_name \<Rightarrow> fallback_name
                       | None \<Rightarrow> primary))
          in case fs csv_file of
               None \<Rightarrow> (None, st)
             | Some f \<Rightarrow>
                 if \<not> force_reload \<and> price_cache st a \<noteq> None
                 then
                   if st_mtime f \<le> (case file_mtime_cache st a of Some m \<Rightarrow> m | None \<Rightarrow> 0)
                   then (price_cache st a, st)
                   else read_and_index f a
                          (st\<lparr>price_cache := (price_cache st)(a := None),
                              price_lookup_cache := (price_lookup_cache st)(a := None)\<rparr>)
                 else read_and_index f a st)"

text \<open>The asset names of the callers, lines 153-159 and 213-219.\<close>

definition asset_map :: "(string \<times> string) list" where
  "asset_map = [(''tao_bittensor'', ''tao''), (''tao'', ''tao''), (''btc'', ''btc''), (''eth'', ''eth'')]"

definition api_asset :: "string \<Rightarrow> string" where
  "api_asset asset = (case map_of asset_map (lower asset) of Some a \<Rightarrow> a | None \<Rightarrow> lower asset)"

text \<open>
  The search for the closest indexed instant, lines 181-187 and 241-247. \<open>min_diff\<close>
  starts at infinity (\<open>None\<close>); the difference to a NaT key is not a number and passes no
  comparison. Differences are in microseconds, so the tolerance of 300 seconds is
  300000000.
\<close>

definition closest_step :: "int \<Rightarrow> cell \<Rightarrow> cell option \<times> int option \<Rightarrow> cell option \<times> int option" where
  "closest_step eval_rounded price_time s =
     (case price_time of
        Time k \<Rightarrow>
          (let diff = \<bar>k - eval_rounded\<bar> in
           if (case snd s of None \<Rightarrow> True | Some min_diff \<Rightarrow> diff < min_diff) \<and> diff \<le> 300000000
           then (Some price_time, Some diff)
           else s)
      | _ \<Rightarrow> s)"

definition closest_time :: "(cell \<times> cell) list \<Rightarrow> int \<Rightarrow> cell option" where
  "closest_time lookup eval_rounded = fst (fold (closest_step eval_rounded) (map fst lookup) (None, None))"

text \<open>The exact match followed by the closest match, lines 175-195 and 237-252.\<close>

definition lookup_price :: "(cell \<times> cell) list \<Rightarrow> int \<Rightarrow> cell option" where
  "lookup_price lookup eval_rounded =
     (case map_of lookup (Time eval_rounded) of
        Some price \<Rightarrow> Some price
      | None \<Rightarrow>
          (case closest_time lookup eval_rounded of
             Some k \<Rightarrow> map_of lookup k
           | None \<Rightarrow> None))"

definition lookup_of :: "price_loader \<Rightarrow> string \<Rightarrow> (cell \<times> cell) list" where
  "lookup_of st a = (case price_lookup_cache st a of Some l \<Rightarrow> l | None \<Rightarrow> [])"

text \<open>\<open>PriceCSVLoader.get_price_at_time\<close>\<close>

definition get_price_at_time ::
  "file_system \<Rightarrow> price_loader \<Rightarrow> string \<Rightarrow> int \<Rightarrow> cell option \<times> price_loader" where
  "get_price_at_time fs st asset eval_time =
     (let a = api_asset asset;
          (df, st') = load_price_csv fs st a False
      in case df of
           None \<Rightarrow> (None, st')
         | Some d \<Rightarrow>
             if df_empty d then (None, st')
             else (lookup_price (lookup_of st' a) (bucket eval_time), st'))"

text \<open>\<open>PriceCSVLoader.fetch_prices_batch\<close>\<close>

definition fetch_prices_batch ::
  "file_system \<Rightarrow> price_loader \<Rightarrow> string \<Rightarrow> int list \<Rightarrow> (int \<times> cell option) list \<times> price_loader" where
  "fetch_prices_batch fs st asset eval_times =
     (if eval_times = [] then ([], st)
      else
        let a = api_asset asset;
            (df, st') = load_price_csv fs st a False
        in case df of
             None \<Rightarrow> ([], st')
           | Some d \<Rightarrow>
               if df_empty d then ([], st')
               else
                 (fold (\<lambda>eval_time result.
                          AList.update eval_time (lookup_price (lookup_of st' a) (bucket eval_time)) result)
                       eval_times [],
                  st'))"


section \<open>Row codec: backend/csv_parser.py\<close>

text \<open>
  A Python string is the list of its Unicode code points. \<open>csv_content.strip()\<close> is
  empty when every code point is white space for Python: the ASCII white space (tab,
  line feed, vertical tab, form feed, carriage return, the separators 28-31, the space),
  U+0085, U+00A0, U+1680, U+2000 to U+200A, U+2028, U+2029, U+202F, U+205F and U+3000.
\<close>

type_synonym unicode = "nat list"

definition is_space :: "nat \<Rightarrow> bool" where
  "is_space c =
     (c \<in> {9, 10, 11, 12, 13, 28, 29, 30, 31, 32, 133, 160, 5760, 8232, 8233, 8239, 8287, 12288}
      \<or> (8192 \<le> c \<and> c \<le> 8202))"

definition blank :: "unicode \<Rightarrow> bool" where
  "blank s = list_all is_space s"

text \<open>
  \<open>if c in df.columns: df[c] = pd.to_datetime(df[c], utc=True)\<close>. The conversion of
  pandas is a parameter: it takes the cells of the column and returns the instants, or
  raises when a cell is no date.
\<close>

definition convert_column ::
  "(cell list \<Rightarrow> exn + cell list) \<Rightarrow> string \<Rightarrow> frame \<Rightarrow> exn + frame" where
  "convert_column to_datetime c df =
     (if c \<in> set (columns df)
      then (case to_datetime (column c df) of
              Inl e \<Rightarrow> Inl e
            | Inr vs \<Rightarrow> Inr (set_column c vs df))
      else Inr df)"

text \<open>
  \<open>CSVParser.parse_csv\<close>. The reader \<open>pd.read_csv\<close> is a parameter: it returns a frame
  or raises. The result is a sum so that an exception leaving the function would be a
  value \<open>Inl\<close>; the \<open>except Exception\<close> clause turns every exception of the body into the
  empty frame.
\<close>

definition parse_csv ::
  "(unicode \<Rightarrow> exn + frame) \<Rightarrow> (cell list \<Rightarrow> exn + cell list) \<Rightarrow> unicode \<Rightarrow> exn + frame" where
  "parse_csv read_csv to_datetime csv_content =
     (if csv_content = [] \<or> blank csv_content then Inr DataFrame
      else
        (case (case read_csv csv_content of
                 Inl e \<Rightarrow> Inl e
               | Inr df \<Rightarrow>
                   (case convert_column to_datetime ''timestamp'' df of
                      Inl e \<Rightarrow> Inl e
                    | Inr df1 \<Rightarrow> convert_column to_datetime ''datetime'' df1)) of
           Inl e \<Rightarrow> Inr DataFrame
         | Inr df \<Rightarrow> Inr df))"

text \<open>
  The fallback of \<open>get_new_rows\<close>, \<open>new_df[~new_df.isin(old_df).all(axis=1)]\<close>:
  \<open>isin\<close> with a frame compares cell by cell at the same row label and column name, a
  missing value equals nothing, and the row is dropped when all its cells match.
\<close>

definition isin_all :: "frame \<Rightarrow> frame \<Rightarrow> nat \<Rightarrow> cell list \<Rightarrow> bool" where
  "isin_all old_df new_df i r =
     (i < length (rows old_df) \<and>
      list_all (\<lambda>c. c \<in> set (columns old_df)
                  \<and> cell_at (columns new_df) r c \<noteq> NaN
                  \<and> cell_at (columns new_df) r c = cell_at (columns old_df) (rows old_df ! i) c)
               (columns new_df))"

text \<open>
  \<open>CSVParser.get_new_rows\<close>. \<open>astype(str)\<close>, the text of a cell, is a parameter.
  \<open>old_df[timestamp_col]\<close> raises \<open>KeyError\<close> when the old frame lacks the key column
  of the new one.
\<close>

definition get_new_rows :: "(cell \<Rightarrow> string) \<Rightarrow> frame \<Rightarrow> frame \<Rightarrow> exn + frame" where
  "get_new_rows astype_str old_df new_df =
     (if df_empty old_df then Inr new_df
      else if df_empty new_df then Inr DataFrame
      else
        let c = timestamp_col new_df in
        if c \<notin> set (columns new_df)
        then Inr (new_df\<lparr>rows := map snd (filter (\<lambda>(i, r). \<not> isin_all old_df new_df i r)
                                               (enumerate 0 (rows new_df)))\<rparr>)
        else if c \<notin> set (columns old_df) then Inl (KeyError c)
        else
          let old_timestamps = set (map astype_str (column c old_df));
              new_timestamps = set (map astype_str (column c new_df));
              added_timestamps = new_timestamps - old_timestamps
          in if added_timestamps = {} then Inr DataFrame
             else Inr (new_df\<lparr>rows := filter (\<lambda>r. astype_str (cell_at (columns new_df) r c)
                                                      \<in> added_timestamps)
                                             (rows new_df)\<rparr>))"

section \<open>Series store: backend/data_manager.py\<close>

text \<open>
  \<open>pd.concat([a, b], ignore_index=True)\<close>: the columns of \<open>a\<close> followed by the new
  columns of \<open>b\<close>, the rows of \<open>a\<close> followed by the rows of \<open>b\<close>, a cell being NaN where
  the frame of the row has no such column.
\<close>

definition reindex :: "string list \<Rightarrow> string list \<Rightarrow> cell list \<Rightarrow> cell list" where
  "reindex cols cols' r = map (cell_at cols r) cols'"

definition pd_concat :: "frame \<Rightarrow> frame \<Rightarrow> frame" where
  "pd_concat a b =
     (let cols = columns a @ filter (\<lambda>c. c \<notin> set (columns a)) (columns b)
      in \<lparr>columns = cols,
          rows = map (reindex (columns a) cols) (rows a) @ map (reindex (columns b) cols) (rows b)\<rparr>)"

text \<open>
  \<open>df.drop_duplicates(subset=[c], keep='last')\<close>: a row is dropped when a later row
  has the same key; missing keys are equal to each other.
\<close>

fun keep_last :: "('a \<Rightarrow> cell) \<Rightarrow> 'a list \<Rightarrow> 'a list" where
  "keep_last key [] = []"
| "keep_last key (r # rs) = (if key r \<in> key ` set rs then keep_last key rs else r # keep_last key rs)"

definition drop_duplicates_last :: "string \<Rightarrow> frame \<Rightarrow> frame" where
  "drop_duplicates_last c df = df\<lparr>rows := keep_last (\<lambda>r. cell_at (columns df) r c) (rows df)\<rparr>"

text \<open>
  \<open>_update_stats\<close> computes the statistics of the stored frame. One of its calls,
  \<open>MetricsCalculator.get_pending_evaluations\<close>, writes into the frame it is given:
  \<open>df['pred_time'] = pd.to_datetime(df[timestamp_col], utc=True)\<close>, when the frame is
  not empty and has the key column. The frame it is given is the stored one, so the
  stored frame gains the column \<open>pred_time\<close>. The key column of a frame that reaches the
  store has been converted by \<open>parse_csv\<close>, so this conversion is the identity. The
  statistics themselves depend on the clock and are not modelled.
\<close>

definition mark_pred_time :: "frame \<Rightarrow> frame" where
  "mark_pred_time df =
     (if df_empty df then df
      else
        let c = timestamp_col df in
        if c \<notin> set (columns df) then df
        else set_column ''pred_time'' (column c df) df)"

text \<open>
  \<open>DataManager.update_miner_data\<close>, on the dictionary \<open>miner_data\<close>. The lock makes the
  call atomic, so a call is a function from the dictionary to the new dictionary.
\<close>

definition update_miner_data :: "(string \<rightharpoonup> frame) \<Rightarrow> string \<Rightarrow> frame \<Rightarrow> (string \<rightharpoonup> frame)" where
  "update_miner_data miner_data miner_name df =
     (let stored =
            (case miner_data miner_name of
               Some existing \<Rightarrow>
                 (let combined = pd_concat existing df;
                      c = timestamp_col combined
                  in if c \<in> set (columns combined)
                     then sort_values_desc c (drop_duplicates_last c combined)
                     else combined)
             | None \<Rightarrow> df)
      in miner_data(miner_name \<mapsto> mark_pred_time stored))"

section \<open>Query layer: backend/main.py\<close>

text \<open>
  \<open>df.groupby(c).first().reset_index()\<close>. The groups are the distinct keys that are not
  missing, in ascending order. \<open>first()\<close> takes, for each of the other columns, the first
  cell of the group that is not missing (NaN when the group has none).
\<close>

definition first_valid :: "cell list \<Rightarrow> cell" where
  "first_valid xs = (case filter (\<lambda>x. x \<noteq> NaN) xs of [] \<Rightarrow> NaN | x # _ \<Rightarrow> x)"

definition groupby_first :: "string \<Rightarrow> frame \<Rightarrow> frame" where
  "groupby_first c df =
     (let key = (\<lambda>r. cell_at (columns df) r c);
          keys = sort_key time_rank (remdups (filter (\<lambda>k. k \<noteq> NaN) (map key (rows df))));
          others = filter (\<lambda>n. n \<noteq> c) (columns df)
      in \<lparr>columns = c # others,
          rows = map (\<lambda>k. k # map (\<lambda>n. first_valid (map (\<lambda>r. cell_at (columns df) r n)
                                                       (filter (\<lambda>r. key r = k) (rows df))))
                                  others)
                     keys\<rparr>)"

text \<open>\<open>df.head(n)\<close>: the first \<open>n\<close> rows, or all but the last \<open>-n\<close> rows.\<close>

definition head :: "int \<Rightarrow> 'a list \<Rightarrow> 'a list" where
  "head n xs = (if 0 \<le> n then take (nat n) xs else take (length xs - nat (- n)) xs)"

text \<open>
  Lines 278-284 of \<open>get_predictions\<close> (and 913-915 of \<open>get_asset_data\<close>): one row per
  timestamp, most recent first, the first \<open>limit\<close> of them.
\<close>

definition latest_per_timestamp :: "frame \<Rightarrow> int \<Rightarrow> frame" where
  "latest_per_timestamp df limit =
     (let c = timestamp_col df;
          df_grouped = groupby_first c df;
          df_sorted = sort_values_desc c df_grouped
      in df_sorted\<lparr>rows := head limit (rows df_sorted)\<rparr>)"

text \<open>
  \<open>get_predictions\<close>, from the frame read for the miner to the frame \<open>df_latest\<close> whose
  rows are returned (each row as a dictionary, a missing cell as \<open>None\<close>). Without a key
  column the rows are taken in reverse file order, as \<open>CSVParser.get_latest_predictions\<close>
  does.
\<close>

definition get_predictions :: "frame \<Rightarrow> int \<Rightarrow> frame" where
  "get_predictions df limit =
     (if df_empty df then DataFrame
      else if timestamp_col df \<notin> set (columns df)
      then df\<lparr>rows := head limit (rev (rows df))\<rparr>
      else latest_per_timestamp df limit)"


section \<open>Example data\<close>

text \<open>
  A directory with one price file for BTC (three rows, two of them in the same bucket),
  two directories whose price file has a row without a close (in the first the file has
  no other column, in the second it has a volume), a directory whose price file cannot
  be read, the loader before anything is cached, and
  the frame and index that loading the example file produces.
\<close>

definition example_prices :: file_system where
  "example_prices = [''btc_7d.csv'' \<mapsto> \<lparr>st_mtime = 1, content = Inr \<lparr>columns = [''timestamp'', ''close''],
      rows = [[Time 0, Num 100], [Time 900000000, Num 130], [Time 960000000, Num 140]]\<rparr>\<rparr>]"

definition missing_close_prices :: file_system where
  "missing_close_prices = [''btc_7d.csv'' \<mapsto> \<lparr>st_mtime = 1, content = Inr \<lparr>columns = [''timestamp'', ''close''],
      rows = [[Time 0, NaN], [Time 900000000, Num 7]]\<rparr>\<rparr>]"

definition missing_close_with_volume :: file_system where
  "missing_close_with_volume = [''btc_7d.csv'' \<mapsto> \<lparr>st_mtime = 1, content = Inr \<lparr>columns = [''timestamp'', ''close'', ''volume''],
      rows = [[Time 0, NaN, Num 12], [Time 900000000, Num 7, Num 15]]\<rparr>\<rparr>]"

definition unreadable_prices :: file_system where
  "unreadable_prices = [''btc_7d.csv'' \<mapsto> \<lparr>st_mtime = 1, content = Inl ParserError\<rparr>]"

definition empty_loader :: price_loader where
  "empty_loader = \<lparr>price_cache = Map.empty, price_lookup_cache = Map.empty, file_mtime_cache = Map.empty\<rparr>"

definition example_index :: "(cell \<times> cell) list" where
  "example_index = [(Time 0, Num 100), (Time 900000000, Num 140)]"

definition example_frame :: frame where
  "example_frame = \<lparr>columns = [''timestamp'', ''close'', ''timestamp_rounded''],
      rows = [[Time 0, Num 100, Time 0], [Time 900000000, Num 130, Time 900000000],
              [Time 960000000, Num 140, Time 900000000]]\<rparr>"

text \<open>
  Frames of a miner: a first read of the file, in file order, with two rows at the same
  timestamp; a later delta; two frames without a key column; and a frame in which two
  concurrent rows share a timestamp and the first of them has no prediction.
\<close>

definition first_load :: frame where
  "first_load = \<lparr>columns = [''timestamp'', ''btc_prediction''],
     rows = [[Time 0, Num 1], [Time 300000000, Num 2], [Time 300000000, Num 3]]\<rparr>"

definition next_delta :: frame where
  "next_delta = \<lparr>columns = [''timestamp'', ''btc_prediction''],
     rows = [[Time 300000000, Num 4], [Time 600000000, Num 5]]\<rparr>"

definition unkeyed :: frame where
  "unkeyed = \<lparr>columns = [''btc_prediction''], rows = [[Num 1]]\<rparr>"

definition unkeyed_delta :: frame where
  "unkeyed_delta = \<lparr>columns = [''btc_prediction''], rows = [[Num 2]]\<rparr>"

definition concurrent :: frame where
  "concurrent = \<lparr>columns = [''timestamp'', ''btc_prediction'', ''btc_interval_lower''],
     rows = [[Time 0, NaN, Num 5], [Time 0, Num 7, Num 6]]\<rparr>"

text \<open>
  A rendering of cells for the examples, in place of \<open>astype(str)\<close>: an instant is
  shown as its number of microseconds, a missing value as \<open>NaT\<close>, a number by its integer
  part, a text as itself. (pandas shows an instant as a date; both are one-to-one on
  instants.)
\<close>

fun str_nat :: "nat \<Rightarrow> string" where
  "str_nat n =
     (if n < 10 then [''0123456789'' ! n]
      else str_nat (n div 10) @ [''0123456789'' ! (n mod 10)])"

declare str_nat.simps [simp del]

definition str_int :: "int \<Rightarrow> string" where
  "str_int i = (if i < 0 then CHR ''-'' # str_nat (nat (- i)) else str_nat (nat i))"

definition example_str :: "cell \<Rightarrow> string" where
  "example_str x =
     (case x of NaN \<Rightarrow> ''NaT'' | Time t \<Rightarrow> str_int t | Num v \<Rightarrow> str_int \<lfloor>v\<rfloor> | Str s \<Rightarrow> s)"

text \<open>The first read of the file followed by one more row.\<close>

definition second_read :: frame where
  "second_read = \<lparr>columns = [''timestamp'', ''btc_prediction''],
     rows = [[Time 0, Num 1], [Time 300000000, Num 2], [Time 300000000, Num 3],
             [Time 600000000, Num 5]]\<rparr>"

text \<open>
  Snapshots keyed by \<open>datetime\<close>: a prior snapshot with one row, a later read of the
  same file with one more row, and a new snapshot that has a \<open>timestamp\<close> column as
  well.
\<close>

definition prior_datetime_only :: frame where
  "prior_datetime_only = \<lparr>columns = [''datetime'', ''btc_prediction''], rows = [[Time 0, Num 1]]\<rparr>"

definition second_datetime_only :: frame where
  "second_datetime_only = \<lparr>columns = [''datetime'', ''btc_prediction''],
     rows = [[Time 0, Num 1], [Time 300000000, Num 2]]\<rparr>"

definition new_with_both :: frame where
  "new_with_both = \<lparr>columns = [''timestamp'', ''datetime'', ''btc_prediction''],
     rows = [[Time 0, Time 0, Num 1], [Time 300000000, Time 300000000, Num 2]]\<rparr>"

text \<open>
  A reader of plain comma-separated text for the examples, in place of \<open>pd.read_csv\<close>.
  It has the behaviour of pandas that the examples need: the first line is the header,
  blank lines are skipped, a text without any line raises, an empty field and a field
  missing at the end of a record are NaN, and a record with more fields than the header
  raises \<open>ParserError\<close> (\<open>Expected n fields in line k, saw m\<close>). A field made of digits is
  a number, any other field a text. The line feed is the code point 10, the comma 44,
  the digits 48 to 57.
\<close>

fun split_on :: "nat \<Rightarrow> unicode \<Rightarrow> unicode list" where
  "split_on c [] = [[]]"
| "split_on c (x # xs) =
     (if x = c then [] # split_on c xs
      else (case split_on c xs of w # ws \<Rightarrow> (x # w) # ws | [] \<Rightarrow> [[x]]))"

definition digit_value :: "nat \<Rightarrow> nat option" where
  "digit_value c = (if 48 \<le> c \<and> c \<le> 57 then Some (c - 48) else None)"

definition parse_field :: "unicode \<Rightarrow> cell" where
  "parse_field s =
     (if s = [] then NaN
      else (case those (map digit_value s) of
              Some ds \<Rightarrow> Num (real (fold (\<lambda>d n. 10 * n + d) ds 0))
            | None \<Rightarrow> Str (map char_of s)))"

definition read_csv_plain :: "unicode \<Rightarrow> exn + frame" where
  "read_csv_plain csv_content =
     (case filter (\<lambda>l. l \<noteq> []) (split_on 10 csv_content) of
        [] \<Rightarrow> Inl ParserError
      | header # records \<Rightarrow>
          (let cols = split_on 44 header;
               n = length cols
           in if list_ex (\<lambda>l. n < length (split_on 44 l)) records
              then Inl ParserError
              else Inr \<lparr>columns = map (map char_of) cols,
                        rows = map (\<lambda>l. let fs = map parse_field (split_on 44 l)
                                        in fs @ replicate (n - length fs) NaN)
                                   records\<rparr>))"

text \<open>
  A conversion for the examples, in place of \<open>pd.to_datetime\<close>: it keeps instants and
  missing values, reads a number as nanoseconds since the epoch, and raises on a text.
\<close>

definition to_datetime_plain :: "cell list \<Rightarrow> exn + cell list" where
  "to_datetime_plain vs =
     sequence (map (\<lambda>x. case x of NaN \<Rightarrow> Inr NaN | Time t \<Rightarrow> Inr (Time t)
                         | Num v \<Rightarrow> Inr (Time (\<lfloor>v\<rfloor> div 1000)) | Str s \<Rightarrow> Inl ValueError) vs)"

text \<open>
  Four texts. A header and one record, with the timestamp 300 seconds in nanoseconds;
  the same text followed by a record that has one field too many; the same text
  followed by a record whose timestamp is no date; and a text of white space only (a
  space, a line feed and the no-break space U+00A0).
\<close>

definition good_text :: unicode where
  "good_text = map of_char ''timestamp,btc_prediction'' @ [10]
                 @ map of_char ''300000000000,100'' @ [10]"

definition bad_text :: unicode where
  "bad_text = good_text @ map of_char ''600000000000,200,300'' @ [10]"

definition bad_time_text :: unicode where
  "bad_time_text = good_text @ map of_char ''not-a-date,200'' @ [10]"

definition blank_text :: unicode where
  "blank_text = [32, 10, 160]"


section \<open>Properties of the metrics engine\<close>

lemma example_point:
  "point_metrics [100, 100] [110, 90] =
     [(''n_predictions'', IntV 2), (''mape'', FloatV (1000 / 99)), (''mae'', FloatV 10),
      (''rmse'', FloatV (sqrt 100)), (''bias'', FloatV 0), (''bias_pct'', FloatV 0)]"
  by (simp add: point_metrics_def mean_opt_def np_mean_def np_div_def guarded_pct_def fl_def)


lemma fl_NonFinite_iff: "fl x = NonFinite \<longleftrightarrow> x = None"
  by (simp add: fl_def split: option.splits)

lemma np_mean_Some: "xs \<noteq> [] \<Longrightarrow> np_mean xs = Some (sum_list xs / real (length xs))"
  by (simp add: np_mean_def np_div_def)

lemma those_None_iff: "those xs = None \<longleftrightarrow> None \<in> set xs"
  by (induction xs) (auto split: option.splits)

lemma those_length: "those xs = Some ys \<Longrightarrow> length ys = length xs"
  by (induction xs arbitrary: ys) (auto split: option.splits)

lemma mean_opt_None_iff: "mean_opt xs = None \<longleftrightarrow> None \<in> set xs" if "xs \<noteq> []"
proof (cases "those xs")
  case None
  then show ?thesis using those_None_iff[of xs] by (simp add: mean_opt_def)
next
  case (Some ys)
  then have "None \<notin> set xs" using those_None_iff[of xs] by simp
  moreover have "ys \<noteq> []" using those_length[OF Some] that by auto
  ultimately show ?thesis using Some by (simp add: mean_opt_def np_mean_def np_div_def)
qed

lemma calc_unfold:
  assumes "p \<noteq> []" "a \<noteq> []"
  shows "calculate_prediction_metrics p a lo hi =
           point_metrics (take (min (length p) (length a)) p) (take (min (length p) (length a)) a)
           @ interval_metrics (take (min (length p) (length a)) a) lo hi"
  using assms by (auto simp: calculate_prediction_metrics_def Let_def min_def)

lemma calc_truncate:
  "calculate_prediction_metrics p a lo hi =
   calculate_prediction_metrics (take (min (length p) (length a)) p) (take (min (length p) (length a)) a) lo hi"
proof (cases "p = [] \<or> a = []")
  case True
  then show ?thesis by (auto simp: calculate_prediction_metrics_def)
next
  case False
  then have ne: "p \<noteq> []" "a \<noteq> []" by auto
  let ?m = "min (length p) (length a)"
  from ne have m: "0 < ?m" by simp
  have ne': "take ?m p \<noteq> []" "take ?m a \<noteq> []" using ne by auto
  show ?thesis
    by (simp only: calc_unfold[OF ne] calc_unfold[OF ne']) simp
qed

lemma interval_omitted:
  assumes "\<not> (\<exists>l u. lo = Some l \<and> hi = Some u \<and> length l = length acts \<and> length u = length acts)"
  shows "interval_metrics acts lo hi = []"
  using assms by (auto simp: interval_metrics_def Let_def split: option.splits)

lemma point_keys:
  "map fst (point_metrics p a) = [''n_predictions'', ''mape'', ''mae'', ''rmse'', ''bias'', ''bias_pct'']"
  by (simp add: point_metrics_def Let_def)

lemma example_interval:
  "interval_metrics [110, 90] (Some [90, 80]) (Some [110, 100]) =
     [(''coverage'', FloatV 100), (''avg_interval_width'', FloatV 20),
      (''avg_interval_width_pct'', FloatV 20)]"
  by (simp add: interval_metrics_def truthy_def np_mean_def np_div_def guarded_pct_def fl_def)

text \<open>
  The worked example of the specification gives MAPE = 10% for predictions \<open>[100, 100]\<close>
  and actuals \<open>[110, 90]\<close>. The code divides each absolute error by its own actual
  value, so the two terms are 10/110 and 10/90, and their mean is 1000/99 percent.
\<close>

theorem metrics_worked_example_mape_counterexample:
  "map_of (calculate_prediction_metrics [100, 100] [110, 90] None None) ''mape'' \<noteq> Some (FloatV 10)"
  by (simp add: calc_unfold example_point)

text \<open>
  C6 (as amended). \<open>calculate_prediction_metrics\<close> applied to predictions
  \<open>[100, 100]\<close> and actuals \<open>[110, 90]\<close> yields MAE = 10, bias = 0 and
  MAPE = 1000/99 percent (about 10.101, not 10); with the bounds \<open>[90, 80]\<close> and
  \<open>[110, 100]\<close> the coverage is 100 percent.
\<close>

theorem metrics_worked_example:
  "map_of (calculate_prediction_metrics [100, 100] [110, 90] None None) ''mae'' = Some (FloatV 10)
   \<and> map_of (calculate_prediction_metrics [100, 100] [110, 90] None None) ''bias'' = Some (FloatV 0)
   \<and> map_of (calculate_prediction_metrics [100, 100] [110, 90] None None) ''mape''
        = Some (FloatV (1000 / 99))
   \<and> map_of (calculate_prediction_metrics [100, 100] [110, 90] (Some [90, 80]) (Some [110, 100]))
          ''coverage'' = Some (FloatV 100)"
  by (simp add: calc_unfold example_point example_interval)

text \<open>
  C7. Lists of different lengths are handled as if both had been cut to the shorter
  length; an empty list of predictions or of actuals gives the empty dictionary; the
  three interval keys are absent from the result whenever a bound is missing or the
  length of a bound differs from the length of the actuals that are evaluated.
\<close>

theorem metrics_input_handling:
  "calculate_prediction_metrics p a lo hi =
     calculate_prediction_metrics (take (min (length p) (length a)) p)
       (take (min (length p) (length a)) a) lo hi
   \<and> (p = [] \<or> a = [] \<longrightarrow> calculate_prediction_metrics p a lo hi = [])
   \<and> (\<not> (\<exists>l u. lo = Some l \<and> hi = Some u
              \<and> length l = length (take (min (length p) (length a)) a)
              \<and> length u = length (take (min (length p) (length a)) a))
        \<longrightarrow> ''coverage'' \<notin> fst ` set (calculate_prediction_metrics p a lo hi)
          \<and> ''avg_interval_width'' \<notin> fst ` set (calculate_prediction_metrics p a lo hi)
          \<and> ''avg_interval_width_pct'' \<notin> fst ` set (calculate_prediction_metrics p a lo hi))"
proof (intro conjI impI)
  show "calculate_prediction_metrics p a lo hi =
     calculate_prediction_metrics (take (min (length p) (length a)) p)
       (take (min (length p) (length a)) a) lo hi"
    by (rule calc_truncate)
next
  assume "p = [] \<or> a = []"
  then show "calculate_prediction_metrics p a lo hi = []"
    by (auto simp: calculate_prediction_metrics_def)
next
  let ?a = "take (min (length p) (length a)) a"
  let ?R = "calculate_prediction_metrics p a lo hi"
  assume no: "\<not> (\<exists>l u. lo = Some l \<and> hi = Some u \<and> length l = length ?a \<and> length u = length ?a)"
  have keys: "fst ` set ?R \<subseteq> {''n_predictions'', ''mape'', ''mae'', ''rmse'', ''bias'', ''bias_pct''}"
  proof (cases "p = [] \<or> a = []")
    case True
    then show ?thesis by (auto simp: calculate_prediction_metrics_def)
  next
    case False
    then have "?R = point_metrics (take (min (length p) (length a)) p) ?a"
      using calc_unfold[of p a lo hi] interval_omitted[OF no] by simp
    then have "fst ` set ?R = set (map fst (point_metrics (take (min (length p) (length a)) p) ?a))"
      by simp
    then show ?thesis unfolding point_keys by auto
  qed
  show "''coverage'' \<notin> fst ` set ?R" using keys by auto
  show "''avg_interval_width'' \<notin> fst ` set ?R" using keys by auto
  show "''avg_interval_width_pct'' \<notin> fst ` set ?R" using keys by auto
qed

theorem metrics_input_handling_witness:
  "calculate_prediction_metrics [1, 2, 3] [1, 2] None None
     = calculate_prediction_metrics [1, 2] [1, 2] None None
   \<and> calculate_prediction_metrics [] [1, 2] None None = []
   \<and> ''coverage'' \<notin> fst ` set (calculate_prediction_metrics [1, 2] [1, 2] (Some [0]) (Some [3, 3]))"
  using metrics_input_handling[of "[1, 2, 3]" "[1, 2]" None None, THEN conjunct1]
        metrics_input_handling[of "[]" "[1, 2]" None None, THEN conjunct2, THEN conjunct1]
        metrics_input_handling[of "[1, 2]" "[1, 2]" "Some [0]" "Some [3, 3]", THEN conjunct2, THEN conjunct2]
  by simp

lemma guarded_pct_defined: "guarded_pct (Some x) (Some m) \<noteq> None"
  by (simp add: guarded_pct_def np_div_def)

lemma guarded_pct_zero: "guarded_pct x (Some 0) = Some 0"
  by (simp add: guarded_pct_def)

lemma np_mean_zero_iff: "xs \<noteq> [] \<Longrightarrow> np_mean xs = Some 0 \<longleftrightarrow> sum_list xs = 0"
  by (simp add: np_mean_def np_div_def)

lemma mape_terms_None_iff:
  assumes "length es = length acts"
  shows "None \<in> set (map (\<lambda>(e, a). map_option (\<lambda>q. q * 100) (np_div \<bar>e\<bar> a)) (zip es acts))
         \<longleftrightarrow> (\<exists>x\<in>set acts. x = 0)"
proof -
  have "None \<in> set (map (\<lambda>(e, a). map_option (\<lambda>q. q * 100) (np_div \<bar>e\<bar> a)) (zip es acts))
        \<longleftrightarrow> (\<exists>x\<in>set (map snd (zip es acts)). x = 0)"
    by (force simp: np_div_def split: if_splits)
  then show ?thesis using assms by simp
qed

lemma point_mape:
  "map_of (point_metrics preds acts) ''mape'' =
     Some (fl (mean_opt (map (\<lambda>(e, a). map_option (\<lambda>q. q * 100) (np_div \<bar>e\<bar> a))
                  (zip (map (\<lambda>(a, p). a - p) (zip acts preds)) acts))))"
  by (simp add: point_metrics_def Let_def)

lemma point_mape_NonFinite_iff:
  assumes "length preds = length acts" "acts \<noteq> []"
  shows "map_of (point_metrics preds acts) ''mape'' = Some NonFinite \<longleftrightarrow> (\<exists>x\<in>set acts. x = 0)"
proof -
  let ?es = "map (\<lambda>(a, p). a - p) (zip acts preds)"
  let ?ts = "map (\<lambda>(e, a). map_option (\<lambda>q. q * 100) (np_div \<bar>e\<bar> a)) (zip ?es acts)"
  have len: "length ?es = length acts" using assms by simp
  have ne: "?ts \<noteq> []" using assms by (cases acts; cases preds) auto
  show ?thesis
    unfolding point_mape using mean_opt_None_iff[OF ne] mape_terms_None_iff[OF len]
    by (simp add: fl_NonFinite_iff)
qed

lemma point_bias_pct:
  "map_of (point_metrics preds acts) ''bias_pct'' =
     Some (fl (guarded_pct (np_mean (map (\<lambda>(a, p). a - p) (zip acts preds))) (np_mean acts)))"
  by (simp add: point_metrics_def Let_def)

lemma point_metrics_finite:
  assumes "length preds = length acts" "acts \<noteq> []" "\<forall>x\<in>set acts. x \<noteq> 0"
  shows "NonFinite \<notin> snd ` set (point_metrics preds acts)"
proof -
  let ?es = "map (\<lambda>(a, p). a - p) (zip acts preds)"
  let ?ts = "map (\<lambda>(e, a). map_option (\<lambda>q. q * 100) (np_div \<bar>e\<bar> a)) (zip ?es acts)"
  have len: "length ?es = length acts" using assms by simp
  have es: "?es \<noteq> []" using assms by (cases acts; cases preds) auto
  have ne: "?ts \<noteq> []" using assms by (cases acts; cases preds) auto
  have mape: "mean_opt ?ts \<noteq> None"
    using mean_opt_None_iff[OF ne] mape_terms_None_iff[OF len] assms(3) by simp
  have m: "np_mean ?es = Some (sum_list ?es / real (length ?es))" by (rule np_mean_Some[OF es])
  have ma: "np_mean acts = Some (sum_list acts / real (length acts))" by (rule np_mean_Some[OF assms(2)])
  have bp: "guarded_pct (np_mean ?es) (np_mean acts) \<noteq> None"
    unfolding m ma by (rule guarded_pct_defined)
  have mae: "np_mean (map abs ?es) \<noteq> None" using es by (simp add: np_mean_Some)
  have rmse: "map_option sqrt (np_mean (map (\<lambda>e. e ^ 2) ?es)) \<noteq> None"
    using es by (simp add: np_mean_Some)
  have bias: "np_mean ?es \<noteq> None" using m by simp
  show ?thesis
    using mape bp mae rmse bias
    by (simp add: point_metrics_def Let_def fl_NonFinite_iff eq_commute[of NonFinite])
qed

lemma interval_metrics_match:
  assumes "acts \<noteq> []" "length l = length acts" "length u = length acts"
  shows "interval_metrics acts (Some l) (Some u) =
     [(''coverage'', fl (map_option (\<lambda>q. q * 100)
         (np_div (real (length (filter id (map (\<lambda>(a, l, u). l \<le> a \<and> a \<le> u) (zip acts (zip l u))))))
                 (real (length acts))))),
      (''avg_interval_width'', fl (np_mean (map (\<lambda>(u, l). u - l) (zip u l)))),
      (''avg_interval_width_pct'',
         fl (guarded_pct (np_mean (map (\<lambda>(u, l). u - l) (zip u l))) (np_mean acts)))]"
proof -
  have "l \<noteq> []" "u \<noteq> []" using assms by auto
  then show ?thesis using assms(2,3) by (simp add: interval_metrics_def truthy_def Let_def)
qed

lemma interval_metrics_finite:
  assumes "acts \<noteq> []"
  shows "NonFinite \<notin> snd ` set (interval_metrics acts lo hi)"
proof (cases "\<exists>l u. lo = Some l \<and> hi = Some u \<and> length l = length acts \<and> length u = length acts")
  case False
  then show ?thesis using interval_omitted[of lo hi acts] by simp
next
  case True
  then obtain l u where lu: "lo = Some l" "hi = Some u" "length l = length acts" "length u = length acts"
    by blast
  have w: "map (\<lambda>(u, l). u - l) (zip u l) \<noteq> []" using lu assms by (cases u; cases l) auto
  have ma: "np_mean acts = Some (sum_list acts / real (length acts))" by (rule np_mean_Some[OF assms])
  have p: "guarded_pct (np_mean (map (\<lambda>(u, l). u - l) (zip u l))) (np_mean acts) \<noteq> None"
    unfolding np_mean_Some[OF w] ma by (rule guarded_pct_defined)
  have c: "np_div (real (length (filter id (map (\<lambda>(a, l, u). l \<le> a \<and> a \<le> u) (zip acts (zip l u))))))
             (real (length acts)) \<noteq> None"
    using assms by (simp add: np_div_def)
  have a: "np_mean (map (\<lambda>(u, l). u - l) (zip u l)) \<noteq> None" using np_mean_Some[OF w] by simp
  show ?thesis
    unfolding lu(1,2) interval_metrics_match[OF assms lu(3,4)]
    using p c a by (simp add: fl_NonFinite_iff eq_commute[of NonFinite])
qed

lemma interval_width_pct_guard:
  assumes "acts \<noteq> []" "sum_list acts = 0"
  shows "map_of (interval_metrics acts lo hi) ''avg_interval_width_pct'' \<in> {None, Some (FloatV 0)}"
proof (cases "\<exists>l u. lo = Some l \<and> hi = Some u \<and> length l = length acts \<and> length u = length acts")
  case False
  then show ?thesis using interval_omitted[of lo hi acts] by simp
next
  case True
  then obtain l u where lu: "lo = Some l" "hi = Some u" "length l = length acts" "length u = length acts"
    by blast
  have z: "np_mean acts = Some 0" using assms by (simp add: np_mean_zero_iff)
  show ?thesis
    unfolding lu(1,2) interval_metrics_match[OF assms(1) lu(3,4)] z guarded_pct_zero
    by (simp add: fl_def)
qed

text \<open>
  C10. For non-empty inputs: the two percentage fields are guarded (they are 0 when the
  mean of the evaluated actuals is 0); when every evaluated actual is non-zero, no
  division by zero happens anywhere, that is, no value of the result is non-finite; and
  the MAPE field is finite only if every evaluated actual is non-zero.
\<close>

theorem metrics_zero_actual:
  assumes "p \<noteq> []" and "a \<noteq> []"
  shows "(sum_list (take (min (length p) (length a)) a) = 0 \<longrightarrow>
            map_of (calculate_prediction_metrics p a lo hi) ''bias_pct'' = Some (FloatV 0)
            \<and> map_of (calculate_prediction_metrics p a lo hi) ''avg_interval_width_pct''
                  \<in> {None, Some (FloatV 0)})
       \<and> ((\<forall>x\<in>set (take (min (length p) (length a)) a). x \<noteq> 0) \<longrightarrow>
            NonFinite \<notin> snd ` set (calculate_prediction_metrics p a lo hi))
       \<and> (map_of (calculate_prediction_metrics p a lo hi) ''mape'' \<noteq> Some NonFinite \<longrightarrow>
            (\<forall>x\<in>set (take (min (length p) (length a)) a). x \<noteq> 0))"
proof -
  let ?m = "min (length p) (length a)"
  let ?p = "take ?m p" and ?a = "take ?m a"
  let ?R = "calculate_prediction_metrics p a lo hi"
  have R: "?R = point_metrics ?p ?a @ interval_metrics ?a lo hi"
    by (rule calc_unfold[OF assms])
  have len: "length ?p = length ?a" by simp
  have ne: "?a \<noteq> []" using assms by auto
  have nopt: "map_of (point_metrics ?p ?a) ''avg_interval_width_pct'' = None"
    by (simp add: point_metrics_def Let_def)
  have g: "map_of ?R ''bias_pct'' = Some (FloatV 0)
           \<and> map_of ?R ''avg_interval_width_pct'' \<in> {None, Some (FloatV 0)}"
    if z: "sum_list ?a = 0"
  proof -
    have mz: "np_mean ?a = Some 0" using ne z by (simp add: np_mean_zero_iff)
    have "map_of ?R ''bias_pct'' = map_of (point_metrics ?p ?a) ''bias_pct''"
      unfolding R by (simp add: map_add_def point_bias_pct split: option.splits)
    then have "map_of ?R ''bias_pct'' = Some (FloatV 0)"
      by (simp add: point_bias_pct mz guarded_pct_zero fl_def)
    moreover have "map_of ?R ''avg_interval_width_pct'' \<in> {None, Some (FloatV 0)}"
      unfolding R using interval_width_pct_guard[OF ne z, of lo hi] nopt
      by (auto simp: map_add_def split: option.splits)
    ultimately show ?thesis by simp
  qed
  have f: "NonFinite \<notin> snd ` set ?R" if nz: "\<forall>x\<in>set ?a. x \<noteq> 0"
    unfolding R using point_metrics_finite[OF len ne nz] interval_metrics_finite[OF ne, of lo hi]
    by (simp add: image_Un)
  have mape: "map_of ?R ''mape'' = map_of (point_metrics ?p ?a) ''mape''"
    unfolding R by (simp add: map_add_def point_mape split: option.splits)
  have n: "\<forall>x\<in>set ?a. x \<noteq> 0" if "map_of ?R ''mape'' \<noteq> Some NonFinite"
    using that point_mape_NonFinite_iff[OF len ne] unfolding mape by blast
  show ?thesis using g f n by blast
qed


theorem metrics_zero_actual_witness:
  "[100, 100] \<noteq> ([] :: real list) \<and> [110, 90] \<noteq> ([] :: real list)
   \<and> NonFinite \<notin> snd ` set (calculate_prediction_metrics [100, 100] [110, 90] None None)
   \<and> map_of (calculate_prediction_metrics [1, 1] [1, - 1] None None) ''bias_pct''
         = Some (FloatV 0)
   \<and> map_of (calculate_prediction_metrics [1] [0] None None) ''mape'' = Some NonFinite"
proof -
  have ne: "[100, 100] \<noteq> ([] :: real list)" "[110, 90] \<noteq> ([] :: real list)"
           "[1, 1] \<noteq> ([] :: real list)" "[1, - 1] \<noteq> ([] :: real list)"
           "[1] \<noteq> ([] :: real list)" "[0] \<noteq> ([] :: real list)"
    by simp_all
  show ?thesis
    using metrics_zero_actual[OF ne(1,2), of None None]
          metrics_zero_actual[OF ne(3,4), of None None]
          metrics_zero_actual[OF ne(5,6), of None None]
    by simp
qed

section \<open>Properties of the price cache\<close>

lemma closest_fold_inv:
  "(fold (closest_step b) ks (None, None) = (None, None)
      \<and> (\<forall>k. Time k \<in> set ks \<longrightarrow> \<bar>k - b\<bar> > 300000000))
   \<or> (\<exists>k. fold (closest_step b) ks (None, None) = (Some (Time k), Some \<bar>k - b\<bar>)
         \<and> Time k \<in> set ks \<and> \<bar>k - b\<bar> \<le> 300000000
         \<and> (\<forall>k'. Time k' \<in> set ks \<longrightarrow> \<bar>k - b\<bar> \<le> \<bar>k' - b\<bar>))"
proof (induction ks rule: rev_induct)
  case Nil
  then show ?case by simp
next
  case (snoc x ks)
  show ?case
  proof (cases x)
    case (Time j)
    from snoc.IH show ?thesis
    proof (elim disjE conjE exE)
      assume s: "fold (closest_step b) ks (None, None) = (None, None)"
        and far: "\<forall>k. Time k \<in> set ks \<longrightarrow> \<bar>k - b\<bar> > 300000000"
      show ?thesis
      proof (cases "\<bar>j - b\<bar> \<le> 300000000")
        case True
        have "fold (closest_step b) (ks @ [x]) (None, None) = (Some (Time j), Some \<bar>j - b\<bar>)"
          using s True Time by (simp add: closest_step_def)
        moreover have "\<forall>k'. Time k' \<in> set (ks @ [x]) \<longrightarrow> \<bar>j - b\<bar> \<le> \<bar>k' - b\<bar>"
          using far True Time by fastforce
        ultimately show ?thesis using True Time by auto
      next
        case False
        have "fold (closest_step b) (ks @ [x]) (None, None) = (None, None)"
          using s False Time by (simp add: closest_step_def)
        moreover have "\<forall>k. Time k \<in> set (ks @ [x]) \<longrightarrow> \<bar>k - b\<bar> > 300000000"
          using far False Time by auto
        ultimately show ?thesis by blast
      qed
    next
      fix k
      assume s: "fold (closest_step b) ks (None, None) = (Some (Time k), Some \<bar>k - b\<bar>)"
        and mem: "Time k \<in> set ks" and near: "\<bar>k - b\<bar> \<le> 300000000"
        and least: "\<forall>k'. Time k' \<in> set ks \<longrightarrow> \<bar>k - b\<bar> \<le> \<bar>k' - b\<bar>"
      show ?thesis
      proof (cases "\<bar>j - b\<bar> < \<bar>k - b\<bar>")
        case True
        then have jn: "\<bar>j - b\<bar> \<le> 300000000" using near by linarith
        have "fold (closest_step b) (ks @ [x]) (None, None) = (Some (Time j), Some \<bar>j - b\<bar>)"
          using s True jn Time by (simp add: closest_step_def)
        moreover have "\<forall>k'. Time k' \<in> set (ks @ [x]) \<longrightarrow> \<bar>j - b\<bar> \<le> \<bar>k' - b\<bar>"
          using least True Time by fastforce
        ultimately show ?thesis using jn Time by auto
      next
        case False
        have "fold (closest_step b) (ks @ [x]) (None, None) = (Some (Time k), Some \<bar>k - b\<bar>)"
          using s False Time by (simp add: closest_step_def)
        moreover have "\<forall>k'. Time k' \<in> set (ks @ [x]) \<longrightarrow> \<bar>k - b\<bar> \<le> \<bar>k' - b\<bar>"
          using least False Time by fastforce
        ultimately show ?thesis using mem near by auto
      qed
    qed
  qed (use snoc.IH in \<open>auto simp: closest_step_def\<close>)
qed

lemma closest_time_None:
  assumes "\<forall>k. Time k \<in> fst ` set L \<longrightarrow> \<bar>k - b\<bar> > 300000000"
  shows "closest_time L b = None"
  using closest_fold_inv[of b "map fst L"] assms by (fastforce simp: closest_time_def)

lemma closest_time_Some:
  assumes "Time j \<in> fst ` set L" "\<bar>j - b\<bar> \<le> 300000000"
  shows "\<exists>k. closest_time L b = Some (Time k) \<and> Time k \<in> fst ` set L \<and> \<bar>k - b\<bar> \<le> 300000000
            \<and> (\<forall>k'. Time k' \<in> fst ` set L \<longrightarrow> \<bar>k - b\<bar> \<le> \<bar>k' - b\<bar>)"
proof -
  have "\<not> (\<forall>k. Time k \<in> set (map fst L) \<longrightarrow> \<bar>k - b\<bar> > 300000000)"
    using assms by force
  with closest_fold_inv[of b "map fst L"] obtain k where
    "fold (closest_step b) (map fst L) (None, None) = (Some (Time k), Some \<bar>k - b\<bar>)"
    "Time k \<in> set (map fst L)" "\<bar>k - b\<bar> \<le> 300000000"
    "\<forall>k'. Time k' \<in> set (map fst L) \<longrightarrow> \<bar>k - b\<bar> \<le> \<bar>k' - b\<bar>"
    by blast
  then show ?thesis by (intro exI[of _ k]) (simp add: closest_time_def)
qed

lemma lookup_price_miss_near:
  assumes miss: "Time b \<notin> fst ` set L"
    and near: "Time j \<in> fst ` set L" "\<bar>j - b\<bar> \<le> 300000000"
  shows "\<exists>k v. lookup_price L b = Some v \<and> map_of L (Time k) = Some v \<and> \<bar>k - b\<bar> \<le> 300000000
            \<and> (\<forall>k'. Time k' \<in> fst ` set L \<longrightarrow> \<bar>k - b\<bar> \<le> \<bar>k' - b\<bar>)"
proof -
  from closest_time_Some[OF near] obtain k where k: "closest_time L b = Some (Time k)"
    "Time k \<in> fst ` set L" "\<bar>k - b\<bar> \<le> 300000000"
    "\<forall>k'. Time k' \<in> fst ` set L \<longrightarrow> \<bar>k - b\<bar> \<le> \<bar>k' - b\<bar>" by blast
  from k(2) obtain v where v: "map_of L (Time k) = Some v"
    by (metis domD dom_map_of_conv_image_fst)
  have m: "map_of L (Time b) = None" using miss by (simp add: map_of_eq_None_iff)
  have "lookup_price L b = Some v" by (simp add: lookup_price_def m k(1) v)
  then show ?thesis using v k(3,4) by blast
qed

lemma lookup_price_miss_far:
  assumes miss: "Time b \<notin> fst ` set L"
    and far: "\<forall>k. Time k \<in> fst ` set L \<longrightarrow> \<bar>k - b\<bar> > 300000000"
  shows "lookup_price L b = None"
proof -
  have m: "map_of L (Time b) = None" using miss by (simp add: map_of_eq_None_iff)
  show ?thesis by (simp add: lookup_price_def m closest_time_None[OF far])
qed

lemma get_price_loaded:
  assumes "load_price_csv fs st (api_asset asset) False = (Some df, st')" "\<not> df_empty df"
  shows "fst (get_price_at_time fs st asset t) = lookup_price (lookup_of st' (api_asset asset)) (bucket t)"
  using assms by (simp add: get_price_at_time_def)

lemma api_asset_BTC: "api_asset ''BTC'' = ''btc''"
  by (simp add: api_asset_def lower_def lower_char_def asset_map_def)

lemma lower_btc: "lower ''btc'' = ''btc''"
  by (simp add: lower_def lower_char_def)

lemma example_load:
  "load_price_csv example_prices empty_loader ''btc'' False =
     (Some example_frame,
      \<lparr>price_cache = [''btc'' \<mapsto> example_frame],
       price_lookup_cache = [''btc'' \<mapsto> example_index],
       file_mtime_cache = [''btc'' \<mapsto> 1]\<rparr>)"
  by (simp add: load_price_csv_def lower_btc ASSET_CSV_MAP_def example_prices_def empty_loader_def
        read_and_index_def column_def cell_at_def round_cell_def bucket_def set_column_def
        set_cell_def to_float_def datetime_row_def is_instant_def AList.update.simps
        example_frame_def example_index_def Let_def)

text \<open>
  C4. When the price index of the asset is built and the five-minute bucket of the
  query is not a key of the index: if some indexed instant is at most 300 seconds from
  the bucket, \<open>get_price_at_time\<close> returns the value of an indexed instant whose
  distance to the bucket is the least of all indexed instants; if every indexed instant
  is more than 300 seconds away, it returns \<open>None\<close>. Exactly 300 seconds resolves,
  301 seconds does not (\<open>lookup_price_boundary\<close> below evaluates both).
\<close>

theorem price_lookup_tolerance:
  assumes "load_price_csv fs st (api_asset asset) False = (Some df, st')"
    and "\<not> df_empty df"
    and "Time (bucket t) \<notin> fst ` set (lookup_of st' (api_asset asset))"
  shows "((\<exists>j. Time j \<in> fst ` set (lookup_of st' (api_asset asset)) \<and> \<bar>j - bucket t\<bar> \<le> 300000000)
          \<longrightarrow> (\<exists>k v. fst (get_price_at_time fs st asset t) = Some v
                \<and> map_of (lookup_of st' (api_asset asset)) (Time k) = Some v
                \<and> \<bar>k - bucket t\<bar> \<le> 300000000
                \<and> (\<forall>k'. Time k' \<in> fst ` set (lookup_of st' (api_asset asset))
                        \<longrightarrow> \<bar>k - bucket t\<bar> \<le> \<bar>k' - bucket t\<bar>)))
       \<and> ((\<forall>k. Time k \<in> fst ` set (lookup_of st' (api_asset asset)) \<longrightarrow> \<bar>k - bucket t\<bar> > 300000000)
          \<longrightarrow> fst (get_price_at_time fs st asset t) = None)"
  unfolding get_price_loaded[OF assms(1,2)]
  using lookup_price_miss_near[OF assms(3)] lookup_price_miss_far[OF assms(3)]
  by blast

lemma example_lookup_of:
  "lookup_of \<lparr>price_cache = [''btc'' \<mapsto> example_frame],
       price_lookup_cache = [''btc'' \<mapsto> example_index],
       file_mtime_cache = [''btc'' \<mapsto> 1]\<rparr> ''btc'' = example_index"
  by (simp add: lookup_of_def)

theorem price_lookup_tolerance_witness:
  "fst (get_price_at_time example_prices empty_loader ''BTC'' 601000000) = Some (Num 140)
   \<and> fst (get_price_at_time example_prices empty_loader ''BTC'' 1500000000) = None"
proof -
  let ?st = "\<lparr>price_cache = [''btc'' \<mapsto> example_frame],
       price_lookup_cache = [''btc'' \<mapsto> example_index],
       file_mtime_cache = [''btc'' \<mapsto> 1]\<rparr>"
  have load: "load_price_csv example_prices empty_loader (api_asset ''BTC'') False
                = (Some example_frame, ?st)"
    unfolding api_asset_BTC by (rule example_load)
  have ne: "\<not> df_empty example_frame" by (simp add: df_empty_def example_frame_def)
  have miss1: "Time (bucket 601000000) \<notin> fst ` set (lookup_of ?st (api_asset ''BTC''))"
    unfolding api_asset_BTC example_lookup_of by (simp add: example_index_def bucket_def)
  have miss2: "Time (bucket 1500000000) \<notin> fst ` set (lookup_of ?st (api_asset ''BTC''))"
    unfolding api_asset_BTC example_lookup_of by (simp add: example_index_def bucket_def)
  have near: "\<exists>j. Time j \<in> fst ` set (lookup_of ?st (api_asset ''BTC'')) \<and> \<bar>j - bucket 601000000\<bar> \<le> 300000000"
    unfolding api_asset_BTC example_lookup_of
    by (rule exI[of _ 900000000]) (simp add: example_index_def bucket_def)
  have far: "\<forall>k. Time k \<in> fst ` set (lookup_of ?st (api_asset ''BTC'')) \<longrightarrow> \<bar>k - bucket 1500000000\<bar> > 300000000"
    unfolding api_asset_BTC example_lookup_of by (simp add: example_index_def bucket_def)
  from price_lookup_tolerance[OF load ne miss1] near
  obtain k v where kv: "fst (get_price_at_time example_prices empty_loader ''BTC'' 601000000) = Some v"
    "map_of (lookup_of ?st (api_asset ''BTC'')) (Time k) = Some v" "\<bar>k - bucket 601000000\<bar> \<le> 300000000"
    by blast
  from kv(2,3) have "v = Num 140"
    unfolding api_asset_BTC example_lookup_of
    by (auto simp: example_index_def bucket_def split: if_splits)
  moreover from price_lookup_tolerance[OF load ne miss2] far
  have "fst (get_price_at_time example_prices empty_loader ''BTC'' 1500000000) = None" by blast
  ultimately show ?thesis using kv(1) by simp
qed

lemma lookup_price_boundary:
  "lookup_price [(Time 300000000, v)] 0 = Some v" "lookup_price [(Time 301000000, v)] 0 = None"
  by (simp_all add: lookup_price_def closest_time_def closest_step_def)

lemma map_of_fold_update:
  "map_of (fold (\<lambda>t result. AList.update t (f t) result) ts r) =
     (\<lambda>k. if k \<in> set ts then Some (f k) else map_of r k)"
  by (induction ts arbitrary: r) (auto simp: update_conv')

lemma fetch_prices_batch_loaded:
  assumes "load_price_csv fs st (api_asset asset) False = (Some df, st')" and "\<not> df_empty df"
  shows "map_of (fst (fetch_prices_batch fs st asset eval_times)) =
           (\<lambda>t. if t \<in> set eval_times then Some (fst (get_price_at_time fs st asset t)) else None)"
proof (cases "eval_times = []")
  case True
  then show ?thesis by (simp add: fetch_prices_batch_def)
next
  case False
  then show ?thesis
    using assms by (auto simp: fetch_prices_batch_def get_price_at_time_def map_of_fold_update)
qed

text \<open>
  C5. The batch returns an entry for every instant only when the price file could be
  loaded (\<open>fetch_prices_batch_loaded\<close>). When the file is missing or cannot be read,
  the early return gives the empty dictionary, and both requested instants are dropped.
\<close>

theorem fetch_prices_batch_drops_instants:
  "fst (fetch_prices_batch Map.empty empty_loader ''btc'' [0, 300000000]) = []
   \<and> fst (fetch_prices_batch unreadable_prices empty_loader ''btc'' [0, 300000000]) = []"
  by (simp add: fetch_prices_batch_def api_asset_def asset_map_def lower_btc load_price_csv_def
        ASSET_CSV_MAP_def ASSET_CSV_FALLBACK_def unreadable_prices_def read_and_index_def
        empty_loader_def Let_def)

text \<open>
  A row without a close. When the file has no other column, the row is a row of
  instants, \<open>float(NaT)\<close> raises and the load fails: there is no index and every query
  is answered with \<open>None\<close>. When the file has a volume, the close is nan, the load
  succeeds and the index holds nan at that instant.
\<close>

lemma missing_close_load_fails:
  "fst (load_price_csv missing_close_prices empty_loader ''btc'' False) = None"
  "fst (get_price_at_time missing_close_prices empty_loader ''btc'' 600000000) = None"
  by (simp_all add: get_price_at_time_def api_asset_def asset_map_def load_price_csv_def lower_btc
        ASSET_CSV_MAP_def missing_close_prices_def empty_loader_def
        read_and_index_def column_def cell_at_def round_cell_def bucket_def set_column_def
        set_cell_def to_float_def datetime_row_def is_instant_def Let_def)

lemma missing_close_with_volume_loads:
  "lookup_of (snd (load_price_csv missing_close_with_volume empty_loader ''btc'' False)) ''btc''
     = [(Time 0, NaN), (Time 900000000, Num 7)]"
  by (simp add: load_price_csv_def lower_btc lookup_of_def
        ASSET_CSV_MAP_def missing_close_with_volume_def empty_loader_def
        read_and_index_def column_def cell_at_def round_cell_def bucket_def set_column_def
        set_cell_def to_float_def datetime_row_def is_instant_def AList.update.simps Let_def)

section \<open>Properties of the row codec\<close>

lemma get_new_rows_first_load: "df_empty old_df \<Longrightarrow> get_new_rows str old_df new_df = Inr new_df"
  by (simp add: get_new_rows_def)

lemma get_new_rows_keyed:
  assumes "\<not> df_empty old_df"
    and "timestamp_col new_df \<in> set (columns new_df)"
    and "timestamp_col new_df \<in> set (columns old_df)"
  shows "\<exists>delta. get_new_rows str old_df new_df = Inr delta
           \<and> rows delta = filter (\<lambda>r. str (cell_at (columns new_df) r (timestamp_col new_df))
                                       \<notin> set (map str (column (timestamp_col new_df) old_df)))
                                (rows new_df)"
proof (cases "df_empty new_df")
  case True
  then have "rows new_df = []" using assms(2) by (auto simp: df_empty_def)
  then show ?thesis using assms(1) True by (simp add: get_new_rows_def DataFrame_def)
next
  case False
  let ?c = "timestamp_col new_df"
  let ?old = "set (map str (column ?c old_df))"
  let ?new = "set (map str (column ?c new_df))"
  have mem: "str (cell_at (columns new_df) r ?c) \<in> ?new" if "r \<in> set (rows new_df)" for r
    using that by (auto simp: column_def)
  have flt: "filter (\<lambda>r. str (cell_at (columns new_df) r ?c) \<in> ?new - ?old) (rows new_df)
           = filter (\<lambda>r. str (cell_at (columns new_df) r ?c) \<notin> ?old) (rows new_df)"
    using mem by (intro filter_cong) auto
  show ?thesis
  proof (cases "?new - ?old = {}")
    case True
    then have "filter (\<lambda>r. str (cell_at (columns new_df) r ?c) \<notin> ?old) (rows new_df) = []"
      using mem by (auto simp: filter_empty_conv)
    then show ?thesis
      using assms False True by (simp add: get_new_rows_def Let_def DataFrame_def)
  next
    case ne: False
    then show ?thesis
      using assms False flt by (simp add: get_new_rows_def Let_def)
  qed
qed

text \<open>
  When the prior snapshot lacks the key column that the code selects from the new
  snapshot, \<open>old_df[timestamp_col]\<close> raises.
\<close>

lemma get_new_rows_key_error:
  assumes "\<not> df_empty old_df" "\<not> df_empty new_df"
    and "timestamp_col new_df \<in> set (columns new_df)"
    and "timestamp_col new_df \<notin> set (columns old_df)"
  shows "get_new_rows str old_df new_df = Inl (KeyError (timestamp_col new_df))"
  using assms by (simp add: get_new_rows_def Let_def)

text \<open>
  Both snapshots have a \<open>datetime\<close> column, and the new one has a \<open>timestamp\<close> column
  as well. The code takes \<open>timestamp\<close> as the key of the new snapshot and looks it up in
  the prior one, which has none: the call raises \<open>KeyError\<close> and returns no delta.
\<close>

theorem get_new_rows_key_error_counterexample:
  "''datetime'' \<in> set (columns prior_datetime_only)
   \<and> ''datetime'' \<in> set (columns new_with_both)
   \<and> get_new_rows example_str prior_datetime_only new_with_both = Inl (KeyError ''timestamp'')"
  by (simp add: get_new_rows_def prior_datetime_only_def new_with_both_def df_empty_def
        timestamp_col_def Let_def)

text \<open>
  C3 (as amended). With an empty prior snapshot (also \<open>pd.DataFrame()\<close>) the delta is the
  whole new snapshot. With a prior snapshot that is not empty, when the key column the
  code selects from the new snapshot (\<open>timestamp\<close> if the new snapshot has it, else
  \<open>datetime\<close>) is a column of the new and of the prior snapshot, the rows of the delta
  are exactly the rows of the new snapshot whose key, as text, is not the text of a key
  of the prior snapshot, in the order of the new snapshot.
\<close>

theorem get_new_rows_set_difference:
  "(df_empty old_df \<longrightarrow> get_new_rows str old_df new_df = Inr new_df)
   \<and> (\<not> df_empty old_df
        \<and> timestamp_col new_df \<in> set (columns new_df)
        \<and> timestamp_col new_df \<in> set (columns old_df) \<longrightarrow>
        (\<exists>delta. get_new_rows str old_df new_df = Inr delta
           \<and> rows delta = filter (\<lambda>r. str (cell_at (columns new_df) r (timestamp_col new_df))
                                       \<notin> set (map str (column (timestamp_col new_df) old_df)))
                                (rows new_df)))"
  using get_new_rows_first_load[of old_df str new_df] get_new_rows_keyed[of old_df new_df str]
  by blast

lemma example_str_values:
  "example_str (Time 0) = ''0''" "example_str (Time 300000000) = ''300000000''"
  "example_str (Time 600000000) = ''600000000''"
  by (simp_all add: example_str_def str_int_def str_nat.simps)

theorem get_new_rows_set_difference_witness:
  "get_new_rows example_str DataFrame second_read = Inr second_read
   \<and> (\<exists>delta. get_new_rows example_str first_load second_read = Inr delta
          \<and> rows delta = [[Time 600000000, Num 5]])
   \<and> (\<exists>delta. get_new_rows example_str prior_datetime_only second_datetime_only = Inr delta
          \<and> rows delta = [[Time 300000000, Num 2]])"
proof -
  have e: "df_empty DataFrame" by (simp add: df_empty_def DataFrame_def)
  have first: "get_new_rows example_str DataFrame second_read = Inr second_read"
    using get_new_rows_set_difference[of DataFrame example_str second_read] e by blast
  have c: "timestamp_col second_read = ''timestamp''"
    by (simp add: timestamp_col_def second_read_def)
  have a1: "timestamp_col second_read \<in> set (columns second_read)"
    unfolding c by (simp add: second_read_def)
  have a2: "timestamp_col second_read \<in> set (columns first_load)"
    unfolding c by (simp add: first_load_def)
  have ne: "\<not> df_empty first_load" by (simp add: df_empty_def first_load_def)
  have f: "filter (\<lambda>r. example_str (cell_at (columns second_read) r (timestamp_col second_read))
                         \<notin> set (map example_str (column (timestamp_col second_read) first_load)))
                  (rows second_read) = [[Time 600000000, Num 5]]"
    unfolding c by (simp add: second_read_def first_load_def column_def cell_at_def example_str_values)
  have keyed: "\<exists>delta. get_new_rows example_str first_load second_read = Inr delta
          \<and> rows delta = [[Time 600000000, Num 5]]"
    using get_new_rows_set_difference[of first_load example_str second_read] ne a1 a2
    unfolding f by blast
  have d: "timestamp_col second_datetime_only = ''datetime''"
    by (simp add: timestamp_col_def second_datetime_only_def)
  have b1: "timestamp_col second_datetime_only \<in> set (columns second_datetime_only)"
    unfolding d by (simp add: second_datetime_only_def)
  have b2: "timestamp_col second_datetime_only \<in> set (columns prior_datetime_only)"
    unfolding d by (simp add: prior_datetime_only_def)
  have ne2: "\<not> df_empty prior_datetime_only" by (simp add: df_empty_def prior_datetime_only_def)
  have g: "filter (\<lambda>r. example_str (cell_at (columns second_datetime_only) r (timestamp_col second_datetime_only))
                         \<notin> set (map example_str (column (timestamp_col second_datetime_only) prior_datetime_only)))
                  (rows second_datetime_only) = [[Time 300000000, Num 2]]"
    unfolding d
    by (simp add: second_datetime_only_def prior_datetime_only_def column_def cell_at_def
          example_str_values)
  have keyed2: "\<exists>delta. get_new_rows example_str prior_datetime_only second_datetime_only = Inr delta
          \<and> rows delta = [[Time 300000000, Num 2]]"
    using get_new_rows_set_difference[of prior_datetime_only example_str second_datetime_only]
          ne2 b1 b2
    unfolding g by blast
  show ?thesis using first keyed keyed2 by blast
qed


lemma parse_csv_blank: "csv_content = [] \<or> blank csv_content \<Longrightarrow> parse_csv rd td csv_content = Inr DataFrame"
  by (simp add: parse_csv_def)

lemma parse_csv_returns: "\<exists>df. parse_csv rd td csv_content = Inr df"
  by (simp add: parse_csv_def split: sum.splits)

lemma parse_csv_read_error: "rd csv_content = Inl e \<Longrightarrow> parse_csv rd td csv_content = Inr DataFrame"
  by (simp add: parse_csv_def)

lemma parse_csv_timestamp_error:
  assumes "rd csv_content = Inr df" "''timestamp'' \<in> set (columns df)"
    and "td (column ''timestamp'' df) = Inl e"
  shows "parse_csv rd td csv_content = Inr DataFrame"
  using assms by (simp add: parse_csv_def convert_column_def)

lemma parse_csv_datetime_error:
  assumes "rd csv_content = Inr df" "convert_column td ''timestamp'' df = Inr df1"
    and "''datetime'' \<in> set (columns df1)" "td (column ''datetime'' df1) = Inl e"
  shows "parse_csv rd td csv_content = Inr DataFrame"
  using assms by (simp add: parse_csv_def convert_column_def)

lemma parse_csv_success:
  assumes "csv_content \<noteq> []" "\<not> blank csv_content"
    and "rd csv_content = Inr df" "convert_column td ''timestamp'' df = Inr df1"
    and "convert_column td ''datetime'' df1 = Inr df2"
  shows "parse_csv rd td csv_content = Inr df2"
  using assms by (simp add: parse_csv_def)

lemma rows_set_column: "length vs = length (rows df) \<Longrightarrow> length (rows (set_column c vs df)) = length (rows df)"
  by (simp add: set_column_def)

lemma convert_column_rows:
  assumes "\<forall>vs ws. td vs = Inr ws \<longrightarrow> length ws = length vs"
    and "convert_column td c df = Inr df'"
  shows "length (rows df') = length (rows df)"
proof (cases "c \<in> set (columns df)")
  case False
  then show ?thesis using assms(2) by (simp add: convert_column_def)
next
  case True
  then obtain ws where ws: "td (column c df) = Inr ws" "df' = set_column c ws df"
    using assms(2) by (auto simp: convert_column_def split: sum.splits)
  have "length ws = length (rows df)" using assms(1) ws(1) by (fastforce simp: column_def)
  then show ?thesis using ws(2) by (simp add: rows_set_column)
qed

lemma parse_csv_all_or_nothing_rows:
  assumes td: "\<forall>vs ws. td vs = Inr ws \<longrightarrow> length ws = length vs"
    and rd: "rd csv_content = Inr df"
  shows "parse_csv rd td csv_content = Inr DataFrame
         \<or> (\<exists>df'. parse_csv rd td csv_content = Inr df' \<and> length (rows df') = length (rows df))"
proof (cases "csv_content = [] \<or> blank csv_content")
  case True
  then show ?thesis by (simp add: parse_csv_def)
next
  case False
  show ?thesis
  proof (cases "convert_column td ''timestamp'' df")
    case (Inl e)
    then show ?thesis using False rd by (simp add: parse_csv_def)
  next
    case (Inr df1)
    note one = this
    show ?thesis
    proof (cases "convert_column td ''datetime'' df1")
      case (Inl e)
      then show ?thesis using False rd one by (simp add: parse_csv_def)
    next
      case (Inr df2)
      have "length (rows df2) = length (rows df)"
        using convert_column_rows[OF td one] convert_column_rows[OF td Inr] by simp
      moreover have "parse_csv rd td csv_content = Inr df2"
        using False rd one Inr by (simp add: parse_csv_def)
      ultimately show ?thesis by blast
    qed
  qed
qed

text \<open>
  C8 (as amended). For every reader, every conversion and every text: \<open>parse_csv\<close>
  returns a frame and raises nothing; an empty or all-whitespace text gives the empty
  frame; a text on which the reader raises gives the empty frame; a raising conversion
  of the \<open>timestamp\<close> column, or of the \<open>datetime\<close> column, gives the empty frame; when
  nothing raises, the result is the frame of the reader with both columns converted;
  and, for a conversion that returns as many cells as it is given, the result is either
  the empty frame or a frame with every row the reader returned. The decode is all or
  nothing: no single record is dropped.
\<close>

theorem parse_csv_all_or_nothing:
  "(\<exists>df. parse_csv read_csv to_datetime csv_content = Inr df)
   \<and> (csv_content = [] \<or> blank csv_content \<longrightarrow>
        parse_csv read_csv to_datetime csv_content = Inr DataFrame)
   \<and> ((\<exists>e. read_csv csv_content = Inl e) \<longrightarrow>
        parse_csv read_csv to_datetime csv_content = Inr DataFrame)
   \<and> (\<forall>df. read_csv csv_content = Inr df \<and> ''timestamp'' \<in> set (columns df)
          \<and> (\<exists>e. to_datetime (column ''timestamp'' df) = Inl e) \<longrightarrow>
        parse_csv read_csv to_datetime csv_content = Inr DataFrame)
   \<and> (\<forall>df df1. read_csv csv_content = Inr df
          \<and> convert_column to_datetime ''timestamp'' df = Inr df1
          \<and> ''datetime'' \<in> set (columns df1)
          \<and> (\<exists>e. to_datetime (column ''datetime'' df1) = Inl e) \<longrightarrow>
        parse_csv read_csv to_datetime csv_content = Inr DataFrame)
   \<and> (\<forall>df df1 df2. csv_content \<noteq> [] \<and> \<not> blank csv_content
          \<and> read_csv csv_content = Inr df
          \<and> convert_column to_datetime ''timestamp'' df = Inr df1
          \<and> convert_column to_datetime ''datetime'' df1 = Inr df2 \<longrightarrow>
        parse_csv read_csv to_datetime csv_content = Inr df2)
   \<and> ((\<forall>vs ws. to_datetime vs = Inr ws \<longrightarrow> length ws = length vs) \<longrightarrow>
        (\<forall>df. read_csv csv_content = Inr df \<longrightarrow>
           parse_csv read_csv to_datetime csv_content = Inr DataFrame
           \<or> (\<exists>df'. parse_csv read_csv to_datetime csv_content = Inr df'
                 \<and> length (rows df') = length (rows df))))"
proof (intro conjI)
  show "\<exists>df. parse_csv read_csv to_datetime csv_content = Inr df"
    by (rule parse_csv_returns)
  show "csv_content = [] \<or> blank csv_content \<longrightarrow>
        parse_csv read_csv to_datetime csv_content = Inr DataFrame"
    using parse_csv_blank by blast
  show "(\<exists>e. read_csv csv_content = Inl e) \<longrightarrow>
        parse_csv read_csv to_datetime csv_content = Inr DataFrame"
    using parse_csv_read_error by blast
  show "\<forall>df. read_csv csv_content = Inr df \<and> ''timestamp'' \<in> set (columns df)
          \<and> (\<exists>e. to_datetime (column ''timestamp'' df) = Inl e) \<longrightarrow>
        parse_csv read_csv to_datetime csv_content = Inr DataFrame"
    using parse_csv_timestamp_error by blast
  show "\<forall>df df1. read_csv csv_content = Inr df
          \<and> convert_column to_datetime ''timestamp'' df = Inr df1
          \<and> ''datetime'' \<in> set (columns df1)
          \<and> (\<exists>e. to_datetime (column ''datetime'' df1) = Inl e) \<longrightarrow>
        parse_csv read_csv to_datetime csv_content = Inr DataFrame"
    using parse_csv_datetime_error by blast
  show "\<forall>df df1 df2. csv_content \<noteq> [] \<and> \<not> blank csv_content
          \<and> read_csv csv_content = Inr df
          \<and> convert_column to_datetime ''timestamp'' df = Inr df1
          \<and> convert_column to_datetime ''datetime'' df1 = Inr df2 \<longrightarrow>
        parse_csv read_csv to_datetime csv_content = Inr df2"
    using parse_csv_success by blast
  show "(\<forall>vs ws. to_datetime vs = Inr ws \<longrightarrow> length ws = length vs) \<longrightarrow>
        (\<forall>df. read_csv csv_content = Inr df \<longrightarrow>
           parse_csv read_csv to_datetime csv_content = Inr DataFrame
           \<or> (\<exists>df'. parse_csv read_csv to_datetime csv_content = Inr df'
                 \<and> length (rows df') = length (rows df)))"
    using parse_csv_all_or_nothing_rows by blast
qed

lemma read_good:
  "read_csv_plain good_text
     = Inr \<lparr>columns = [''timestamp'', ''btc_prediction''], rows = [[Num 300000000000, Num 100]]\<rparr>"
  by (simp add: read_csv_plain_def good_text_def parse_field_def digit_value_def Let_def
        char_of_def bit_0)

lemma read_bad: "read_csv_plain bad_text = Inl ParserError"
  by (simp add: read_csv_plain_def bad_text_def good_text_def Let_def)

lemma read_bad_time:
  "read_csv_plain bad_time_text
     = Inr \<lparr>columns = [''timestamp'', ''btc_prediction''],
            rows = [[Num 300000000000, Num 100], [Str ''not-a-date'', Num 200]]\<rparr>"
  by (simp add: read_csv_plain_def bad_time_text_def good_text_def parse_field_def digit_value_def
        Let_def char_of_def bit_0)

lemma not_blank_good: "good_text \<noteq> [] \<and> \<not> blank good_text"
  by (simp add: good_text_def blank_def is_space_def)

lemma not_blank_bad: "bad_text \<noteq> [] \<and> \<not> blank bad_text"
  by (simp add: bad_text_def good_text_def blank_def is_space_def)

lemma not_blank_bad_time: "bad_time_text \<noteq> [] \<and> \<not> blank bad_time_text"
  by (simp add: bad_time_text_def good_text_def blank_def is_space_def)

lemma blank_blank_text: "blank blank_text"
  by (simp add: blank_text_def blank_def is_space_def)

lemma convert_good:
  "convert_column to_datetime_plain ''timestamp''
     \<lparr>columns = [''timestamp'', ''btc_prediction''], rows = [[Num 300000000000, Num 100]]\<rparr>
   = Inr \<lparr>columns = [''timestamp'', ''btc_prediction''], rows = [[Time 300000000, Num 100]]\<rparr>"
  by (simp add: convert_column_def to_datetime_plain_def column_def cell_at_def set_column_def
        set_cell_def)

lemma convert_good_datetime:
  "convert_column to_datetime_plain ''datetime''
     \<lparr>columns = [''timestamp'', ''btc_prediction''], rows = [[Time 300000000, Num 100]]\<rparr>
   = Inr \<lparr>columns = [''timestamp'', ''btc_prediction''], rows = [[Time 300000000, Num 100]]\<rparr>"
  by (simp add: convert_column_def)

lemma convert_bad_time:
  "to_datetime_plain (column ''timestamp''
     \<lparr>columns = [''timestamp'', ''btc_prediction''],
      rows = [[Num 300000000000, Num 100], [Str ''not-a-date'', Num 200]]\<rparr>) = Inl ValueError"
  by (simp add: to_datetime_plain_def column_def cell_at_def)

lemma parse_good:
  "parse_csv read_csv_plain to_datetime_plain good_text
     = Inr \<lparr>columns = [''timestamp'', ''btc_prediction''], rows = [[Time 300000000, Num 100]]\<rparr>"
  using not_blank_good by (simp add: parse_csv_def read_good convert_good convert_good_datetime)

lemma parse_bad: "parse_csv read_csv_plain to_datetime_plain bad_text = Inr DataFrame"
  using not_blank_bad by (simp add: parse_csv_def read_bad)

lemma parse_bad_time: "parse_csv read_csv_plain to_datetime_plain bad_time_text = Inr DataFrame"
  using not_blank_bad_time
  by (simp add: parse_csv_def read_bad_time convert_column_def convert_bad_time)

text \<open>
  One record with a field too many makes the reader raise, and one record whose
  timestamp is no date makes the conversion raise; in both cases the result is the
  empty frame, and the well-formed record before it is lost with it.
\<close>

theorem parse_csv_malformed_record_counterexample:
  "parse_csv read_csv_plain to_datetime_plain good_text
     = Inr \<lparr>columns = [''timestamp'', ''btc_prediction''], rows = [[Time 300000000, Num 100]]\<rparr>
   \<and> parse_csv read_csv_plain to_datetime_plain bad_text = Inr \<lparr>columns = [], rows = []\<rparr>
   \<and> parse_csv read_csv_plain to_datetime_plain bad_time_text = Inr \<lparr>columns = [], rows = []\<rparr>
   \<and> parse_csv read_csv_plain to_datetime_plain bad_text
       \<noteq> parse_csv read_csv_plain to_datetime_plain good_text
   \<and> parse_csv read_csv_plain to_datetime_plain bad_time_text
       \<noteq> parse_csv read_csv_plain to_datetime_plain good_text"
  by (simp add: parse_good parse_bad parse_bad_time) (simp add: DataFrame_def)

lemma to_datetime_plain_length: "\<forall>vs ws. to_datetime_plain vs = Inr ws \<longrightarrow> length ws = length vs"
proof -
  have "sequence xs = Inr ws \<Longrightarrow> length ws = length xs" for xs :: "(exn + cell) list" and ws
    by (induction xs arbitrary: ws) (auto split: sum.splits)
  then show ?thesis by (fastforce simp: to_datetime_plain_def)
qed

theorem parse_csv_all_or_nothing_witness:
  "parse_csv read_csv_plain to_datetime_plain blank_text = Inr DataFrame
   \<and> parse_csv read_csv_plain to_datetime_plain bad_text = Inr DataFrame
   \<and> parse_csv read_csv_plain to_datetime_plain bad_time_text = Inr DataFrame
   \<and> parse_csv read_csv_plain to_datetime_plain good_text
       = Inr \<lparr>columns = [''timestamp'', ''btc_prediction''], rows = [[Time 300000000, Num 100]]\<rparr>
   \<and> (\<exists>df'. parse_csv read_csv_plain to_datetime_plain good_text = Inr df' \<and> length (rows df') = 1)"
proof -
  let ?read = "\<lparr>columns = [''timestamp'', ''btc_prediction''], rows = [[Num 300000000000, Num 100]]\<rparr>"
  let ?conv = "\<lparr>columns = [''timestamp'', ''btc_prediction''], rows = [[Time 300000000, Num 100]]\<rparr>"
  let ?readbt = "\<lparr>columns = [''timestamp'', ''btc_prediction''],
      rows = [[Num 300000000000, Num 100], [Str ''not-a-date'', Num 200]]\<rparr>"
  have b: "parse_csv read_csv_plain to_datetime_plain blank_text = Inr DataFrame"
    using parse_csv_all_or_nothing[of read_csv_plain to_datetime_plain blank_text] blank_blank_text
    by blast
  have e: "\<exists>e. read_csv_plain bad_text = Inl e" by (simp add: read_bad)
  have bad: "parse_csv read_csv_plain to_datetime_plain bad_text = Inr DataFrame"
    using parse_csv_all_or_nothing[of read_csv_plain to_datetime_plain bad_text] e by blast
  have tcol: "''timestamp'' \<in> set (columns ?readbt)" by simp
  have te: "\<exists>e. to_datetime_plain (column ''timestamp'' ?readbt) = Inl e"
    by (simp add: convert_bad_time)
  have badt: "parse_csv read_csv_plain to_datetime_plain bad_time_text = Inr DataFrame"
    using parse_csv_all_or_nothing[of read_csv_plain to_datetime_plain bad_time_text]
          read_bad_time tcol te by blast
  have good: "parse_csv read_csv_plain to_datetime_plain good_text = Inr ?conv"
    using parse_csv_all_or_nothing[of read_csv_plain to_datetime_plain good_text]
          not_blank_good read_good convert_good convert_good_datetime by blast
  have nd: "parse_csv read_csv_plain to_datetime_plain good_text \<noteq> Inr DataFrame"
    unfolding good by (simp add: DataFrame_def)
  have "\<exists>df'. parse_csv read_csv_plain to_datetime_plain good_text = Inr df'
           \<and> length (rows df') = length (rows ?read)"
    using parse_csv_all_or_nothing[of read_csv_plain to_datetime_plain good_text]
          to_datetime_plain_length read_good nd by blast
  then have cnt: "\<exists>df'. parse_csv read_csv_plain to_datetime_plain good_text = Inr df'
           \<and> length (rows df') = 1" by simp
  show ?thesis using b bad badt good cnt by blast
qed


section \<open>Properties of the series store\<close>

subsection \<open>Removing duplicates and sorting, on lists\<close>

lemma keep_last_map:
  assumes "\<forall>r\<in>set xs. k' (f r) = k r"
  shows "keep_last k' (map f xs) = map f (keep_last k xs)"
  using assms
proof (induction xs)
  case Nil
  then show ?case by simp
next
  case (Cons x xs)
  have "k' ` f ` set xs = k ` set xs" using Cons.prems by force
  then show ?case using Cons by (simp add: image_image)
qed

lemma insort_key_map:
  "insort_key k' (f x) (map f xs) = map f (insort_key (\<lambda>r. k' (f r)) x xs)"
  by (induction xs) auto

lemma sort_key_map:
  "sort_key k' (map f xs) = map f (sort_key (\<lambda>r. k' (f r)) xs)"
  by (induction xs) (auto simp: insort_key_map)

lemma insort_key_cong_set:
  assumes "k x = k' x" "\<forall>r\<in>set xs. k r = k' r"
  shows "insort_key k x xs = insort_key k' x xs"
  using assms by (induction xs) auto

lemma sort_key_cong_set:
  assumes "\<forall>r\<in>set xs. k r = k' r"
  shows "sort_key k xs = sort_key k' xs"
  using assms
proof (induction xs)
  case Nil
  then show ?case by simp
next
  case (Cons x xs)
  then have "sort_key k xs = sort_key k' xs" by simp
  moreover have "insort_key k x (sort_key k' xs) = insort_key k' x (sort_key k' xs)"
    using Cons.prems by (intro insort_key_cong_set) auto
  ultimately show ?case by simp
qed

lemma sort_desc_map:
  assumes "\<forall>r\<in>set xs. k' (f r) = k r"
  shows "sort_desc k' (map f xs) = map f (sort_desc k xs)"
proof -
  have "sort_key (\<lambda>r. time_rank (k' (f r))) (rev xs) = sort_key (\<lambda>r. time_rank (k r)) (rev xs)"
    using assms by (intro sort_key_cong_set) auto
  then show ?thesis
    by (simp add: sort_desc_def rev_map sort_key_map)
qed

lemma set_keep_last_subset: "set (keep_last k xs) \<subseteq> set xs"
  by (induction xs) auto

lemma keys_keep_last: "k ` set (keep_last k xs) = k ` set xs"
  by (induction xs) auto

lemma distinct_keys_keep_last: "distinct (map k (keep_last k xs))"
proof (induction xs)
  case Nil
  then show ?case by simp
next
  case (Cons x xs)
  then show ?case using keys_keep_last[of k xs] by auto
qed

lemma keep_last_id: "distinct (map k xs) \<Longrightarrow> keep_last k xs = xs"
  by (induction xs) auto

lemma keep_last_append:
  "keep_last k (xs @ ys) = filter (\<lambda>r. k r \<notin> k ` set ys) (keep_last k xs) @ keep_last k ys"
  by (induction xs) (auto simp: image_Un)

lemma set_sort_desc: "set (sort_desc k xs) = set xs"
  by (simp add: sort_desc_def)

lemma distinct_keys_insort:
  "distinct (map k (insort_key f x xs)) = (k x \<notin> k ` set xs \<and> distinct (map k xs))"
  by (induction xs) (auto simp: set_insort_key)

lemma distinct_keys_sort_key: "distinct (map k (sort_key f xs)) = distinct (map k xs)"
  by (induction xs) (auto simp: distinct_keys_insort)

lemma distinct_keys_sort_desc: "distinct (map k (sort_desc f xs)) = distinct (map k xs)"
proof -
  have r: "distinct (map k (rev ys)) = distinct (map k ys)" for ys
    by (simp add: rev_map[symmetric])
  show ?thesis unfolding sort_desc_def r distinct_keys_sort_key ..
qed

lemma time_rank_inj:
  assumes "time_rank a = time_rank b" "a = NaN \<or> (\<exists>t. a = Time t)" "b = NaN \<or> (\<exists>t. b = Time t)"
  shows "a = b"
  using assms by (auto simp: time_rank_def)

lemma sort_key_unique:
  fixes f :: "'a \<Rightarrow> 'b::linorder"
  assumes "set xs = set ys" "distinct (map f xs)" "distinct (map f ys)"
  shows "sort_key f xs = sort_key f ys"
proof -
  have inj: "inj_on f (set xs)" using assms(2) by (simp add: distinct_map)
  have "map f (sort_key f xs) = map f (sort_key f ys)"
  proof (rule sorted_distinct_set_unique)
    show "sorted (map f (sort_key f xs))" "sorted (map f (sort_key f ys))" by simp_all
    show "distinct (map f (sort_key f xs))" using assms(2) by (simp add: distinct_keys_sort_key)
    show "distinct (map f (sort_key f ys))" using assms(3) by (simp add: distinct_keys_sort_key)
    show "set (map f (sort_key f xs)) = set (map f (sort_key f ys))" using assms(1) by simp
  qed
  moreover have "inj_on f (set (sort_key f xs) \<union> set (sort_key f ys))"
    using inj assms(1) by simp
  ultimately show ?thesis by (rule map_inj_on)
qed

lemma sort_desc_unique:
  assumes "set xs = set ys" "distinct (map k xs)" "distinct (map k ys)"
    and "\<forall>r\<in>set xs. k r = NaN \<or> (\<exists>t. k r = Time t)"
  shows "sort_desc k xs = sort_desc k ys"
proof -
  have inj: "inj_on (\<lambda>r. time_rank (k r)) (set xs)"
  proof (rule inj_onI)
    fix a b assume ab: "a \<in> set xs" "b \<in> set xs" "time_rank (k a) = time_rank (k b)"
    then have "k a = k b" using assms(4) time_rank_inj by blast
    then show "a = b" using assms(2) ab by (simp add: distinct_map inj_on_def)
  qed
  have dx: "distinct (map (\<lambda>r. time_rank (k r)) (rev xs))"
    using assms(2) inj by (simp add: distinct_map)
  have dy: "distinct (map (\<lambda>r. time_rank (k r)) (rev ys))"
    using assms(1,3) inj by (simp add: distinct_map)
  have "sort_key (\<lambda>r. time_rank (k r)) (rev xs) = sort_key (\<lambda>r. time_rank (k r)) (rev ys)"
    using assms(1) dx dy by (intro sort_key_unique) simp_all
  then show ?thesis by (simp add: sort_desc_def)
qed

lemma merge_rows_idem:
  assumes "\<forall>r\<in>set (xs @ ys). k r = NaN \<or> (\<exists>t. k r = Time t)"
  shows "sort_desc k (keep_last k (sort_desc k (keep_last k (xs @ ys)) @ ys))
         = sort_desc k (keep_last k (xs @ ys))"
proof -
  let ?A = "keep_last k (xs @ ys)"
  let ?M = "sort_desc k ?A"
  let ?B = "keep_last k (?M @ ys)"
  have dA: "distinct (map k ?A)" by (rule distinct_keys_keep_last)
  have dM: "distinct (map k ?M)" using dA by (simp add: distinct_keys_sort_desc)
  have dB: "distinct (map k ?B)" by (rule distinct_keys_keep_last)
  have A: "?A = filter (\<lambda>r. k r \<notin> k ` set ys) (keep_last k xs) @ keep_last k ys"
    by (rule keep_last_append)
  have B: "?B = filter (\<lambda>r. k r \<notin> k ` set ys) ?M @ keep_last k ys"
    unfolding keep_last_append[of k ?M ys] keep_last_id[OF dM] ..
  have kY: "\<And>r. r \<in> set (keep_last k ys) \<Longrightarrow> k r \<in> k ` set ys"
    using set_keep_last_subset[of k ys] by auto
  have "set ?B = {r \<in> set ?A. k r \<notin> k ` set ys} \<union> set (keep_last k ys)"
    unfolding B by (simp add: set_sort_desc)
  also have "\<dots> = set ?A"
  proof -
    have "set ?A = {r \<in> set (keep_last k xs). k r \<notin> k ` set ys} \<union> set (keep_last k ys)"
      unfolding A by auto
    then show ?thesis using kY by auto
  qed
  finally have sets: "set ?B = set ?A" .
  have typed: "\<forall>r\<in>set ?B. k r = NaN \<or> (\<exists>t. k r = Time t)"
    using sets set_keep_last_subset[of k "xs @ ys"] assms by blast
  show ?thesis by (rule sort_desc_unique[OF sets dB dA typed])
qed

subsection \<open>Rows as functions of the column name\<close>

lemma cell_at_map: "cell_at cols (map g cols) c = (if c \<in> set cols then g c else NaN)"
  by (simp add: cell_at_def map_of_zip_map)

lemma reindex_map: "set cols' \<subseteq> set cols \<Longrightarrow> reindex cols cols' (map g cols) = map g cols'"
  by (auto simp: reindex_def cell_at_map)

lemma set_cell_map:
  "set_cell cols p v (map g cols) = map (g(p := v)) (if p \<in> set cols then cols else cols @ [p])"
proof (cases "p \<in> set cols")
  case True
  have "zip cols (map g cols) = map (\<lambda>n. (n, g n)) cols"
    by (induction cols) auto
  then show ?thesis using True by (simp add: set_cell_def comp_def fun_upd_def)
next
  case False
  then show ?thesis by (simp add: set_cell_def)
qed

lemma rows_pd_concat:
  "rows (pd_concat a b) =
     map (\<lambda>g. map g (columns (pd_concat a b)))
         (map (cell_at (columns a)) (rows a) @ map (cell_at (columns b)) (rows b))"
  by (simp add: pd_concat_def Let_def reindex_def comp_def)

lemma columns_pd_concat:
  "set (columns (pd_concat a b)) = set (columns a) \<union> set (columns b)"
  by (auto simp: pd_concat_def Let_def)

lemma pd_concat_absorb:
  assumes "set (columns b) \<subseteq> set cols"
  shows "pd_concat \<lparr>columns = cols, rows = map (\<lambda>g. map g cols) G\<rparr> b
           = \<lparr>columns = cols, rows = map (\<lambda>g. map g cols) (G @ map (cell_at (columns b)) (rows b))\<rparr>"
proof -
  have f: "filter (\<lambda>c. c \<notin> set cols) (columns b) = []"
    using assms by (auto simp: filter_empty_conv)
  have "map (reindex cols cols) (map (\<lambda>g. map g cols) G) = map (\<lambda>g. map g cols) G"
    by (simp add: reindex_map)
  then show ?thesis by (simp add: pd_concat_def Let_def f reindex_def comp_def)
qed

text \<open>Removing duplicates, then sorting, on a frame whose rows are given by functions.\<close>

lemma merge_on_functions:
  assumes "K \<in> set cols"
  shows "sort_values_desc K (drop_duplicates_last K \<lparr>columns = cols, rows = map (\<lambda>g. map g cols) G\<rparr>)
         = \<lparr>columns = cols,
            rows = map (\<lambda>g. map g cols) (sort_desc (\<lambda>g. g K) (keep_last (\<lambda>g. g K) G))\<rparr>"
proof -
  have k: "\<forall>g\<in>set H. cell_at cols (map g cols) K = g K" for H :: "(string \<Rightarrow> cell) list"
    using assms by (simp add: cell_at_map)
  have 1: "keep_last (\<lambda>r. cell_at cols r K) (map (\<lambda>g. map g cols) G)
           = map (\<lambda>g. map g cols) (keep_last (\<lambda>g. g K) G)"
    by (rule keep_last_map) (rule k)
  have 2: "sort_desc (\<lambda>r. cell_at cols r K) (map (\<lambda>g. map g cols) (keep_last (\<lambda>g. g K) G))
           = map (\<lambda>g. map g cols) (sort_desc (\<lambda>g. g K) (keep_last (\<lambda>g. g K) G))"
    by (rule sort_desc_map) (rule k)
  show ?thesis
    by (simp add: sort_values_desc_def drop_duplicates_last_def 1 2)
qed

lemma mark_on_functions:
  assumes "K = (if ''timestamp'' \<in> set cols then ''timestamp'' else ''datetime'')" "K \<in> set cols" "G \<noteq> []"
  shows "mark_pred_time \<lparr>columns = cols, rows = map (\<lambda>g. map g cols) G\<rparr>
         = \<lparr>columns = (if ''pred_time'' \<in> set cols then cols else cols @ [''pred_time'']),
            rows = map (\<lambda>g. map g (if ''pred_time'' \<in> set cols then cols else cols @ [''pred_time'']))
                       (map (\<lambda>g. g(''pred_time'' := g K)) G)\<rparr>"
proof -
  have ne: "\<not> df_empty \<lparr>columns = cols, rows = map (\<lambda>g. map g cols) G\<rparr>"
    using assms by (auto simp: df_empty_def)
  have tc: "timestamp_col \<lparr>columns = cols, rows = map (\<lambda>g. map g cols) G\<rparr> = K"
    using assms(1) by (simp add: timestamp_col_def)
  have z: "map (\<lambda>(r, v). set_cell cols ''pred_time'' v r)
             (zip (map (\<lambda>g. map g cols) H) (map (\<lambda>r. cell_at cols r K) (map (\<lambda>g. map g cols) H)))
           = map (\<lambda>g. map (g(''pred_time'' := g K)) (if ''pred_time'' \<in> set cols then cols else cols @ [''pred_time''])) H"
    for H :: "(string \<Rightarrow> cell) list"
    using assms(2) by (induction H) (simp_all add: cell_at_map set_cell_map)
  let ?F = "\<lparr>columns = cols, rows = map (\<lambda>g. map g cols) G\<rparr>"
  have "mark_pred_time ?F = set_column ''pred_time'' (column K ?F) ?F"
    using ne tc assms(2) by (simp add: mark_pred_time_def Let_def)
  also have "\<dots> = \<lparr>columns = (if ''pred_time'' \<in> set cols then cols else cols @ [''pred_time'']),
       rows = map (\<lambda>(r, v). set_cell cols ''pred_time'' v r)
                (zip (map (\<lambda>g. map g cols) G) (map (\<lambda>r. cell_at cols r K) (map (\<lambda>g. map g cols) G)))\<rparr>"
    by (simp only: set_column_def column_def frame.select_convs)
  finally have e: "mark_pred_time ?F = \<lparr>columns = (if ''pred_time'' \<in> set cols then cols else cols @ [''pred_time'']),
       rows = map (\<lambda>(r, v). set_cell cols ''pred_time'' v r)
                (zip (map (\<lambda>g. map g cols) G) (map (\<lambda>r. cell_at cols r K) (map (\<lambda>g. map g cols) G)))\<rparr>" .
  show ?thesis unfolding e z by (simp add: comp_def)
qed

lemma pd_concat_functions:
  "pd_concat a b =
     \<lparr>columns = columns (pd_concat a b),
      rows = map (\<lambda>g. map g (columns (pd_concat a b)))
                 (map (cell_at (columns a)) (rows a) @ map (cell_at (columns b)) (rows b))\<rparr>"
  using rows_pd_concat[of a b] by simp

lemma keep_last_Nil_iff: "keep_last k xs = [] \<longleftrightarrow> xs = []"
  using keys_keep_last[of k xs] by (cases xs) auto

lemma sort_desc_Nil_iff: "sort_desc k xs = [] \<longleftrightarrow> xs = []"
  using set_sort_desc[of k xs] by (metis set_empty)

text \<open>
  One merge into an existing frame, when the rows of the combined frame are given by
  functions: the stored frame holds the last row of each key, sorted and marked.
\<close>

lemma merge_step:
  assumes st: "miner_data name = Some existing"
    and c: "pd_concat existing df = \<lparr>columns = cols, rows = map (\<lambda>g. map g cols) G\<rparr>"
    and K: "K = (if ''timestamp'' \<in> set cols then ''timestamp'' else ''datetime'')" "K \<in> set cols"
    and ne: "G \<noteq> []"
  shows "update_miner_data miner_data name df =
           miner_data(name \<mapsto>
             \<lparr>columns = (if ''pred_time'' \<in> set cols then cols else cols @ [''pred_time'']),
              rows = map (\<lambda>g. map g (if ''pred_time'' \<in> set cols then cols else cols @ [''pred_time'']))
                       (map (\<lambda>g. g(''pred_time'' := g K))
                          (sort_desc (\<lambda>g. g K) (keep_last (\<lambda>g. g K) G)))\<rparr>)"
proof -
  let ?H = "sort_desc (\<lambda>g. g K) (keep_last (\<lambda>g. g K) G)"
  have tc: "timestamp_col \<lparr>columns = cols, rows = map (\<lambda>g. map g cols) G\<rparr> = K"
    using K(1) by (simp add: timestamp_col_def)
  have H: "?H \<noteq> []" using ne by (simp add: sort_desc_Nil_iff keep_last_Nil_iff)
  have "update_miner_data miner_data name df =
          miner_data(name \<mapsto> mark_pred_time
            (sort_values_desc K (drop_duplicates_last K \<lparr>columns = cols, rows = map (\<lambda>g. map g cols) G\<rparr>)))"
    unfolding update_miner_data_def st option.case c Let_def tc using K(2) by simp
  also have "\<dots> = miner_data(name \<mapsto> mark_pred_time \<lparr>columns = cols, rows = map (\<lambda>g. map g cols) ?H\<rparr>)"
    unfolding merge_on_functions[OF K(2)] ..
  finally show ?thesis unfolding mark_on_functions[OF K H] .
qed

lemma merge_step_empty:
  assumes st: "miner_data name = Some existing"
    and c: "pd_concat existing df = \<lparr>columns = cols, rows = []\<rparr>"
    and K: "timestamp_col \<lparr>columns = cols, rows = []\<rparr> \<in> set cols"
  shows "update_miner_data miner_data name df = miner_data(name \<mapsto> \<lparr>columns = cols, rows = []\<rparr>)"
  unfolding update_miner_data_def st option.case c Let_def using K
  by (simp add: sort_values_desc_def drop_duplicates_last_def sort_desc_def mark_pred_time_def df_empty_def)

lemma mark_fun_key:
  assumes "K \<noteq> ''pred_time''"
  shows "(g(''pred_time'' := g K)) K = g K"
  using assms by simp

lemma mark_fun_idem:
  assumes "K \<noteq> ''pred_time''"
  shows "(g(''pred_time'' := g K))(''pred_time'' := (g(''pred_time'' := g K)) K) = g(''pred_time'' := g K)"
  using assms by simp

lemma mark_merge_commute:
  assumes "K \<noteq> ''pred_time''"
  shows "map (\<lambda>g. g(''pred_time'' := g K)) (sort_desc (\<lambda>g. g K) (keep_last (\<lambda>g. g K) Z))
         = sort_desc (\<lambda>g. g K) (keep_last (\<lambda>g. g K) (map (\<lambda>g. g(''pred_time'' := g K)) Z))"
proof -
  have k: "\<forall>g\<in>set W. (g(''pred_time'' := g K)) K = g K" for W :: "(string \<Rightarrow> cell) list"
    using assms by simp
  have 1: "keep_last (\<lambda>g. g K) (map (\<lambda>g. g(''pred_time'' := g K)) Z)
           = map (\<lambda>g. g(''pred_time'' := g K)) (keep_last (\<lambda>g. g K) Z)"
    by (rule keep_last_map) (rule k)
  have 2: "sort_desc (\<lambda>g. g K) (map (\<lambda>g. g(''pred_time'' := g K)) (keep_last (\<lambda>g. g K) Z))
           = map (\<lambda>g. g(''pred_time'' := g K)) (sort_desc (\<lambda>g. g K) (keep_last (\<lambda>g. g K) Z))"
    by (rule sort_desc_map) (rule k)
  show ?thesis unfolding 1 2 ..
qed

lemma is_instant_cases: "is_instant x \<Longrightarrow> x = NaN \<or> (\<exists>t. x = Time t)"
  by (cases x) (simp_all add: is_instant_def)

lemma instants_functions:
  assumes "instants K df" "K \<noteq> ''pred_time''"
  shows "\<forall>g\<in>set (map (\<lambda>g. g(''pred_time'' := g K)) (map (cell_at (columns df)) (rows df))).
           g K = NaN \<or> (\<exists>t. g K = Time t)"
  using assms by (auto simp: instants_def list_all_iff dest: is_instant_cases)

text \<open>
  C1 (as amended). For a source that already has a stored frame, when the combined frame
  has the key column (\<open>timestamp\<close>, or else \<open>datetime\<close>) and the key cells of the
  stored frame and of the delta are instants or missing, merging the same delta twice
  leaves the store as merging it once does.
\<close>

theorem merge_idempotent:
  assumes st: "miner_data miner_name = Some existing"
    and Kin: "timestamp_col (pd_concat existing df) \<in> set (columns (pd_concat existing df))"
    and tE: "instants (timestamp_col (pd_concat existing df)) existing"
    and tD: "instants (timestamp_col (pd_concat existing df)) df"
  shows "update_miner_data (update_miner_data miner_data miner_name df) miner_name df
         = update_miner_data miner_data miner_name df"
proof -
  let ?C = "columns (pd_concat existing df)"
  let ?K = "timestamp_col (pd_concat existing df)"
  let ?GX = "map (cell_at (columns existing)) (rows existing)"
  let ?GD = "map (cell_at (columns df)) (rows df)"
  let ?mk = "\<lambda>g::string \<Rightarrow> cell. g(''pred_time'' := g ?K)"
  let ?merge = "\<lambda>Z::(string \<Rightarrow> cell) list. sort_desc (\<lambda>g. g ?K) (keep_last (\<lambda>g. g ?K) Z)"
  have c1: "pd_concat existing df = \<lparr>columns = ?C, rows = map (\<lambda>g. map g ?C) (?GX @ ?GD)\<rparr>"
    by (rule pd_concat_functions)
  have Kdef: "?K = (if ''timestamp'' \<in> set ?C then ''timestamp'' else ''datetime'')"
    by (simp add: timestamp_col_def)
  have Kp: "?K \<noteq> ''pred_time''" by (simp add: timestamp_col_def)
  have sub: "set (columns df) \<subseteq> set ?C" by (simp add: columns_pd_concat)
  show ?thesis
  proof (cases "?GX @ ?GD = []")
    case True
    let ?F = "\<lparr>columns = ?C, rows = []\<rparr>"
    have c1': "pd_concat existing df = ?F" using c1 True by simp
    have K0: "timestamp_col ?F \<in> set ?C" using Kin by (simp add: timestamp_col_def)
    have u1: "update_miner_data miner_data miner_name df = miner_data(miner_name \<mapsto> ?F)"
      by (rule merge_step_empty[where miner_data=miner_data and name=miner_name, OF st c1' K0])
    have st2: "(miner_data(miner_name \<mapsto> ?F)) miner_name = Some ?F" by simp
    have c2: "pd_concat ?F df = ?F"
      using pd_concat_absorb[OF sub, of "[]"] True by simp
    have u2: "update_miner_data (miner_data(miner_name \<mapsto> ?F)) miner_name df
                = (miner_data(miner_name \<mapsto> ?F))(miner_name \<mapsto> ?F)"
      by (rule merge_step_empty[where miner_data="miner_data(miner_name \<mapsto> ?F)" and name=miner_name, OF st2 c2 K0])
    show ?thesis unfolding u1 u2 by simp
  next
    case False
    let ?C1 = "if ''pred_time'' \<in> set ?C then ?C else ?C @ [''pred_time'']"
    let ?H = "?merge (?GX @ ?GD)"
    let ?S1 = "\<lparr>columns = ?C1, rows = map (\<lambda>g. map g ?C1) (map ?mk ?H)\<rparr>"
    have u1: "update_miner_data miner_data miner_name df = miner_data(miner_name \<mapsto> ?S1)"
      by (rule merge_step[where miner_data=miner_data and name=miner_name, OF st c1 Kdef Kin False])
    have st2: "(miner_data(miner_name \<mapsto> ?S1)) miner_name = Some ?S1" by simp
    have sub1: "set (columns df) \<subseteq> set ?C1" using sub by auto
    have c2: "pd_concat ?S1 df = \<lparr>columns = ?C1, rows = map (\<lambda>g. map g ?C1) (map ?mk ?H @ ?GD)\<rparr>"
      by (rule pd_concat_absorb[OF sub1])
    have K1: "?K = (if ''timestamp'' \<in> set ?C1 then ''timestamp'' else ''datetime'')"
      using Kdef by auto
    have K1in: "?K \<in> set ?C1" using Kin by auto
    have Hne: "?H \<noteq> []" using False by (simp add: sort_desc_Nil_iff keep_last_Nil_iff)
    then have ne2: "map ?mk ?H @ ?GD \<noteq> []" by simp
    have C1': "(if ''pred_time'' \<in> set ?C1 then ?C1 else ?C1 @ [''pred_time'']) = ?C1" by simp
    have u2: "update_miner_data (miner_data(miner_name \<mapsto> ?S1)) miner_name df
                = (miner_data(miner_name \<mapsto> ?S1))(miner_name \<mapsto>
                    \<lparr>columns = ?C1, rows = map (\<lambda>g. map g ?C1) (map ?mk (?merge (map ?mk ?H @ ?GD)))\<rparr>)"
      using merge_step[where miner_data="miner_data(miner_name \<mapsto> ?S1)" and name=miner_name, OF st2 c2 K1 K1in ne2] unfolding C1' .
    have typed: "\<forall>g\<in>set (map ?mk ?GX @ map ?mk ?GD). g ?K = NaN \<or> (\<exists>t. g ?K = Time t)"
    proof (rule ballI)
      fix g assume "g \<in> set (map ?mk ?GX @ map ?mk ?GD)"
      then consider "g \<in> set (map ?mk ?GX)" | "g \<in> set (map ?mk ?GD)" by auto
      then show "g ?K = NaN \<or> (\<exists>t. g ?K = Time t)"
        using instants_functions[OF tE Kp] instants_functions[OF tD Kp] by cases blast+
    qed
    have mkH: "map ?mk ?H = ?merge (map ?mk ?GX @ map ?mk ?GD)"
      using mark_merge_commute[OF Kp, of "?GX @ ?GD"] by simp
    have idem: "map ?mk (map ?mk ?H) = map ?mk ?H"
      using Kp by (simp add: comp_def)
    have "map ?mk (?merge (map ?mk ?H @ ?GD)) = ?merge (map ?mk (map ?mk ?H) @ map ?mk ?GD)"
      using mark_merge_commute[OF Kp, of "map ?mk ?H @ ?GD"] by simp
    also have "\<dots> = ?merge (map ?mk ?H @ map ?mk ?GD)"
      by (simp only: idem)
    also have "\<dots> = ?merge (?merge (map ?mk ?GX @ map ?mk ?GD) @ map ?mk ?GD)"
      by (simp only: mkH)
    also have "\<dots> = ?merge (map ?mk ?GX @ map ?mk ?GD)"
      by (rule merge_rows_idem[OF typed])
    finally have rows_eq: "map ?mk (?merge (map ?mk ?H @ ?GD)) = map ?mk ?H"
      unfolding mkH .
    show ?thesis unfolding u1 u2 rows_eq by simp
  qed
qed


subsection \<open>The keys after a merge into an existing frame\<close>

lemma sorted_sort_desc:
  "sorted_wrt (\<lambda>a b. time_rank (k b) \<le> time_rank (k a)) (sort_desc k xs)"
proof -
  have "sorted (map (\<lambda>r. time_rank (k r)) (sort_key (\<lambda>r. time_rank (k r)) (rev xs)))"
    by simp
  then have "sorted_wrt (\<lambda>a b. time_rank (k a) \<le> time_rank (k b)) (sort_key (\<lambda>r. time_rank (k r)) (rev xs))"
    by (simp add: sorted_map)
  then show ?thesis by (simp add: sort_desc_def sorted_wrt_rev)
qed

lemma column_functions:
  assumes "K \<in> set cols"
  shows "column K \<lparr>columns = cols, rows = map (\<lambda>g. map g cols) G\<rparr> = map (\<lambda>g. g K) G"
  using assms by (simp add: column_def cell_at_map comp_def)

lemma merge_keys_distinct_sorted:
  assumes st: "miner_data miner_name = Some existing"
    and Kin: "timestamp_col (pd_concat existing df) \<in> set (columns (pd_concat existing df))"
  shows "\<exists>stored. update_miner_data miner_data miner_name df miner_name = Some stored
           \<and> distinct (column (timestamp_col (pd_concat existing df)) stored)
           \<and> sorted_wrt (\<lambda>a b. time_rank b \<le> time_rank a)
                 (column (timestamp_col (pd_concat existing df)) stored)"
proof -
  let ?C = "columns (pd_concat existing df)"
  let ?K = "timestamp_col (pd_concat existing df)"
  let ?G = "map (cell_at (columns existing)) (rows existing) @ map (cell_at (columns df)) (rows df)"
  let ?mk = "\<lambda>g::string \<Rightarrow> cell. g(''pred_time'' := g ?K)"
  let ?H = "sort_desc (\<lambda>g. g ?K) (keep_last (\<lambda>g. g ?K) ?G)"
  have c1: "pd_concat existing df = \<lparr>columns = ?C, rows = map (\<lambda>g. map g ?C) ?G\<rparr>"
    by (rule pd_concat_functions)
  have Kdef: "?K = (if ''timestamp'' \<in> set ?C then ''timestamp'' else ''datetime'')"
    by (simp add: timestamp_col_def)
  have Kp: "?K \<noteq> ''pred_time''" by (simp add: timestamp_col_def)
  show ?thesis
  proof (cases "?G = []")
    case True
    have c1': "pd_concat existing df = \<lparr>columns = ?C, rows = []\<rparr>" using c1 True by simp
    have K0: "timestamp_col \<lparr>columns = ?C, rows = []\<rparr> \<in> set ?C" using Kin by (simp add: timestamp_col_def)
    have "update_miner_data miner_data miner_name df = miner_data(miner_name \<mapsto> \<lparr>columns = ?C, rows = []\<rparr>)"
      by (rule merge_step_empty[where miner_data=miner_data and name=miner_name, OF st c1' K0])
    then show ?thesis by (simp add: column_def)
  next
    case False
    let ?C1 = "if ''pred_time'' \<in> set ?C then ?C else ?C @ [''pred_time'']"
    let ?S1 = "\<lparr>columns = ?C1, rows = map (\<lambda>g. map g ?C1) (map ?mk ?H)\<rparr>"
    have u1: "update_miner_data miner_data miner_name df = miner_data(miner_name \<mapsto> ?S1)"
      by (rule merge_step[where miner_data=miner_data and name=miner_name, OF st c1 Kdef Kin False])
    have K1in: "?K \<in> set ?C1" using Kin by auto
    have col: "column ?K ?S1 = map (\<lambda>g. g ?K) ?H"
      unfolding column_functions[OF K1in] using Kp by (simp add: comp_def)
    have d: "distinct (map (\<lambda>g. g ?K) ?H)"
      by (simp add: distinct_keys_sort_desc distinct_keys_keep_last)
    have "sorted_wrt (\<lambda>a b. time_rank (b ?K) \<le> time_rank (a ?K)) ?H"
      by (rule sorted_sort_desc)
    then have s: "sorted_wrt (\<lambda>a b. time_rank b \<le> time_rank a) (map (\<lambda>g. g ?K) ?H)"
      by (simp add: sorted_wrt_map)
    show ?thesis unfolding u1 using col d s by simp
  qed
qed


subsection \<open>Examples of merges\<close>

lemma upd_unkeyed:
  "update_miner_data [''miner1'' \<mapsto> unkeyed] ''miner1'' unkeyed_delta
     = [''miner1'' \<mapsto> \<lparr>columns = [''btc_prediction''], rows = [[Num 1], [Num 2]]\<rparr>]"
  by (simp add: update_miner_data_def unkeyed_def unkeyed_delta_def pd_concat_def reindex_def
       cell_at_def timestamp_col_def mark_pred_time_def df_empty_def Let_def)

lemma upd_unkeyed2:
  "update_miner_data [''miner1'' \<mapsto> \<lparr>columns = [''btc_prediction''], rows = [[Num 1], [Num 2]]\<rparr>] ''miner1'' unkeyed_delta
     = [''miner1'' \<mapsto> \<lparr>columns = [''btc_prediction''], rows = [[Num 1], [Num 2], [Num 2]]\<rparr>]"
  by (simp add: update_miner_data_def unkeyed_def unkeyed_delta_def pd_concat_def reindex_def
       cell_at_def timestamp_col_def mark_pred_time_def df_empty_def Let_def)

lemma upd_first_next:
  "update_miner_data [''miner1'' \<mapsto> first_load] ''miner1'' next_delta ''miner1''
     = Some \<lparr>columns = [''timestamp'', ''btc_prediction'', ''pred_time''],
             rows = [[Time 600000000, Num 5, Time 600000000],
                     [Time 300000000, Num 4, Time 300000000],
                     [Time 0, Num 1, Time 0]]\<rparr>"
  by (simp add: update_miner_data_def first_load_def next_delta_def pd_concat_def reindex_def
       mark_pred_time_def df_empty_def drop_duplicates_last_def sort_values_desc_def sort_desc_def
       time_rank_def
       timestamp_col_def set_column_def column_def cell_at_def set_cell_def Let_def)

theorem merge_idempotent_witness:
  "update_miner_data (update_miner_data [''miner1'' \<mapsto> first_load] ''miner1'' next_delta)
       ''miner1'' next_delta
     = update_miner_data [''miner1'' \<mapsto> first_load] ''miner1'' next_delta
   \<and> update_miner_data [''miner1'' \<mapsto> first_load] ''miner1'' next_delta ''miner1''
     = Some \<lparr>columns = [''timestamp'', ''btc_prediction'', ''pred_time''],
             rows = [[Time 600000000, Num 5, Time 600000000],
                     [Time 300000000, Num 4, Time 300000000],
                     [Time 0, Num 1, Time 0]]\<rparr>"
proof -
  have st: "[''miner1'' \<mapsto> first_load] ''miner1'' = Some first_load" by simp
  have K: "timestamp_col (pd_concat first_load next_delta) = ''timestamp''"
    by (simp add: timestamp_col_def columns_pd_concat first_load_def)
  have Kin: "timestamp_col (pd_concat first_load next_delta) \<in> set (columns (pd_concat first_load next_delta))"
    unfolding K by (simp add: columns_pd_concat first_load_def)
  have tE: "instants (timestamp_col (pd_concat first_load next_delta)) first_load"
    unfolding K by (simp add: instants_def first_load_def cell_at_def is_instant_def)
  have tD: "instants (timestamp_col (pd_concat first_load next_delta)) next_delta"
    unfolding K by (simp add: instants_def next_delta_def cell_at_def is_instant_def)
  show ?thesis
    using merge_idempotent[where miner_data="[''miner1'' \<mapsto> first_load]" and miner_name="''miner1''",
            OF st Kin tE tD] upd_first_next
    by simp
qed

text \<open>
  Without a key column nothing is removed: the second merge of the same delta appends
  its rows again.
\<close>

theorem merge_not_idempotent_counterexample:
  "update_miner_data (update_miner_data [''miner1'' \<mapsto> unkeyed] ''miner1'' unkeyed_delta)
       ''miner1'' unkeyed_delta ''miner1''
   \<noteq> update_miner_data [''miner1'' \<mapsto> unkeyed] ''miner1'' unkeyed_delta ''miner1''"
  unfolding upd_unkeyed upd_unkeyed2 by simp


lemma first_merge_stored:
  "update_miner_data Map.empty ''miner1'' first_load ''miner1''
     = Some \<lparr>columns = [''timestamp'', ''btc_prediction'', ''pred_time''],
             rows = [[Time 0, Num 1, Time 0],
                     [Time 300000000, Num 2, Time 300000000],
                     [Time 300000000, Num 3, Time 300000000]]\<rparr>"
  by (simp add: update_miner_data_def first_load_def mark_pred_time_def df_empty_def
       timestamp_col_def set_column_def column_def cell_at_def set_cell_def Let_def)


text \<open>
  C2. After a merge into an existing frame the keys of the stored frame are distinct and
  sorted, most recent first (\<open>merge_keys_distinct_sorted\<close>). The first merge for a
  source stores the delta as it is: here the stored key column holds the instant
  300000000 twice, in the ascending order of the file.
\<close>

theorem first_merge_keeps_duplicates:
  "map_option (column ''timestamp'') (update_miner_data Map.empty ''miner1'' first_load ''miner1'')
     = Some [Time 0, Time 300000000, Time 300000000]"
  by (simp add: first_merge_stored column_def cell_at_def)

section \<open>Properties of the query layer\<close>

text \<open>
  C9. Two rows share the timestamp 0; the first has no prediction and the lower bound 5,
  the second has the prediction 7 and the lower bound 6. The collapsed row takes the
  prediction of the second row and the lower bound of the first: it is a combination of
  the two, not the first row.
\<close>

theorem first_seen_collapse_combines_fields:
  "rows (get_predictions concurrent 50) = [[Time 0, Num 7, Num 5]]"
  by (simp add: get_predictions_def df_empty_def latest_per_timestamp_def concurrent_def timestamp_col_def groupby_first_def
       sort_values_desc_def sort_desc_def head_def cell_at_def first_valid_def time_rank_def Let_def)


end
